theory Spec2Isabelle
  imports Main "HOL-Library.Word"
begin

section \<open>The debug stub's interface (src/core/gdbstub/gdbstub.h)\<close>

type_synonym VAddr = "64 word"

text \<open>A \<^verbatim>\<open>Kernel::Thread*\<close> that is not null; \<^verbatim>\<open>nullptr\<close> is \<open>None\<close> of \<open>thread option\<close>.\<close>

type_synonym thread = nat

text \<open>\<^verbatim>\<open>enum class BreakpointType\<close>; \<^verbatim>\<open>None\<close> is written \<open>None_type\<close>.\<close>

datatype BreakpointType = None_type | Execute | Read | Write | Access

record BreakpointAddress =
  address :: VAddr
  type :: BreakpointType

text \<open>
  Modelled from the spec: the state of the stub is missing from the sources (gdbstub.h
  only declares the functions; gdbstub.cpp, which holds the state and the bodies, is not
  part of them). The fields are the ones the spec's data model lists for GdbState.
\<close>

record GdbState =
  enabled :: bool
  connected :: bool
  deferred_start :: bool
  halt_flag :: bool
  memory_break :: bool
  per_thread_step :: "thread set"
  listen_port :: "16 word"

text \<open>
  Modelled from the spec: the body of \<^verbatim>\<open>GDBStub::Break(is_memory_break)\<close> is missing
  (gdbstub.h declares it, with the default argument \<^verbatim>\<open>false\<close>). By the spec it sets
  the halt flag and records the memory-break flag.
\<close>

definition Break :: "bool \<Rightarrow> GdbState \<Rightarrow> GdbState" where
  "Break is_memory_break g = g\<lparr>halt_flag := True, memory_break := is_memory_break\<rparr>"

text \<open>
  Modelled from the spec: the body of \<^verbatim>\<open>GDBStub::GetCpuHaltFlag()\<close> is missing; it
  reads the halt flag.
\<close>

definition GetCpuHaltFlag :: "GdbState \<Rightarrow> bool" where
  "GetCpuHaltFlag g = halt_flag g"

text \<open>
  Modelled from the spec: the body of \<^verbatim>\<open>GDBStub::GetThreadStepFlag(thread)\<close> is
  missing; it tells whether the thread is in the per-thread step set.
\<close>

definition GetThreadStepFlag :: "GdbState \<Rightarrow> thread \<Rightarrow> bool" where
  "GetThreadStepFlag g t = (t \<in> per_thread_step g)"

text \<open>
  Modelled from the spec: the body of \<^verbatim>\<open>GDBStub::IsServerEnabled()\<close> is missing; it
  reads \<open>enabled\<close>.
\<close>

definition IsServerEnabled :: "GdbState \<Rightarrow> bool" where
  "IsServerEnabled g = enabled g"

text \<open>
  Modelled from the spec: the body of \<^verbatim>\<open>GDBStub::IsConnected()\<close> is missing; it reads
  \<open>connected\<close>.
\<close>

definition IsConnected :: "GdbState \<Rightarrow> bool" where
  "IsConnected g = connected g"

section \<open>Collaborators and the call log\<close>

text \<open>
  The scheduler, the timing subsystem, the execution engine of each core and the packet
  pump of the stub are not part of the sources: they are parameters. The scheduler and
  the timing calls act on the collaborators' own state \<open>'w\<close>; the engine calls
  (\<^verbatim>\<open>physical_core.Run/Step/Stop\<close>, and \<^verbatim>\<open>Cpu::RunLoop\<close> of the older manager)
  and \<^verbatim>\<open>GDBStub::HandlePacket\<close> may also change the stub's state, since the engine
  reports traps to the stub and the packet pump serves the debugger. Every call on a
  collaborator is taken to return.
\<close>

record 'w env =
  SelectThread :: "nat \<Rightarrow> 'w \<Rightarrow> 'w"
  TryDoContextSwitch :: "nat \<Rightarrow> 'w \<Rightarrow> 'w"
  GetCurrentThread :: "'w \<Rightarrow> thread option"
  Idle :: "'w \<Rightarrow> 'w"
  Advance :: "'w \<Rightarrow> 'w"
  ResetRun :: "'w \<Rightarrow> 'w"
  SwitchContext :: "nat \<Rightarrow> 'w \<Rightarrow> 'w"
  CanCurrentContextRun :: "'w \<Rightarrow> bool"
  Run :: "nat \<Rightarrow> GdbState \<times> 'w \<Rightarrow> GdbState \<times> 'w"
  Step :: "nat \<Rightarrow> GdbState \<times> 'w \<Rightarrow> GdbState \<times> 'w"
  Stop :: "nat \<Rightarrow> GdbState \<times> 'w \<Rightarrow> GdbState \<times> 'w"
  HandlePacket :: "GdbState \<times> 'w \<Rightarrow> GdbState \<times> 'w"
  CpuRunLoop :: "nat \<Rightarrow> bool \<Rightarrow> GdbState \<times> 'w \<Rightarrow> GdbState \<times> 'w"
  CpuShutdown :: "nat \<Rightarrow> 'w \<Rightarrow> 'w"

text \<open>
  Every call that the modelled code makes on a collaborator is logged, in program order,
  with the value a query returned.
\<close>

datatype call =
    HLE_lock
  | HLE_unlock
  | global_scheduler_SelectThread nat
  | Scheduler_TryDoContextSwitch nat
  | Kernel_GetCurrentThread "thread option"
  | core_timing_Idle
  | core_timing_Advance
  | core_timing_ResetRun
  | core_timing_SwitchContext nat
  | core_timing_CanCurrentContextRun bool
  | physical_core_Run nat
  | physical_core_Step nat
  | physical_core_Stop nat
  | GDBStub_GetCpuHaltFlag bool
  | GDBStub_GetThreadStepFlag thread bool
  | GDBStub_Break bool
  | GDBStub_IsServerEnabled bool
  | GDBStub_HandlePacket
  | GDBStub_IsConnected bool
  | core_managers_RunLoop nat bool
  | cores_RunLoop nat bool
  | barrier_NotifyEnd
  | core_threads_create nat
  | core_threads_join nat
  | core_threads_reset nat
  | thread_to_cpu_clear
  | cpu_core_Shutdown nat
  | cpu_core_reset nat
  | exclusive_monitor_reset
  | barrier_reset

text \<open>
  The state of the system: the stub, the collaborators, the members of the CPU manager
  and the call log. Both manager classes of the sources are modelled on it:
  \<^verbatim>\<open>CpuManager\<close> (src/core/cpu_manager.cpp) owns \<open>core_managers\<close> and \<open>active_core\<close>;
  the older \<^verbatim>\<open>CpuCoreManager\<close> (src/unnamed/part_001) owns \<open>cores\<close>,
  \<open>core_threads\<close>, \<open>thread_to_cpu\<close>, \<open>barrier\<close>, \<open>exclusive_monitor\<close> and
  its own \<open>active_core\<close>. A \<^verbatim>\<open>std::unique_ptr\<close> or raw pointer that may be null is
  an \<open>option\<close>; a \<^verbatim>\<open>CoreManager\<close> or \<^verbatim>\<open>Cpu\<close> object is the core index it was
  constructed with; the barrier is its latch (\<open>True\<close> once ended).
\<close>

type_synonym host_thread = nat

record 'w world =
  gdb :: GdbState
  ext :: 'w
  active_core :: nat
  core_managers :: "nat option list"
  cores :: "nat option list"
  core_threads :: "host_thread option list"
  thread_to_cpu :: "host_thread \<rightharpoonup> nat option"
  barrier :: "bool option"
  exclusive_monitor :: "unit option"
  calls :: "call list"

definition emit :: "call \<Rightarrow> 'w world \<Rightarrow> 'w world" where
  "emit c w = w\<lparr>calls := calls w @ [c]\<rparr>"

definition call_ext :: "call \<Rightarrow> ('w \<Rightarrow> 'w) \<Rightarrow> 'w world \<Rightarrow> 'w world" where
  "call_ext c f w = emit c (w\<lparr>ext := f (ext w)\<rparr>)"

definition call_engine ::
  "call \<Rightarrow> (GdbState \<times> 'w \<Rightarrow> GdbState \<times> 'w) \<Rightarrow> 'w world \<Rightarrow> 'w world" where
  "call_engine c f w =
     (let (g, x) = f (gdb w, ext w) in emit c (w\<lparr>gdb := g, ext := x\<rparr>))"

definition call_gdb :: "call \<Rightarrow> (GdbState \<Rightarrow> GdbState) \<Rightarrow> 'w world \<Rightarrow> 'w world" where
  "call_gdb c f w = emit c (w\<lparr>gdb := f (gdb w)\<rparr>)"

section \<open>CoreManager (second part of src/core/gdbstub/gdbstub.h)\<close>

text \<open>
  \<^verbatim>\<open>CoreManager::Reschedule\<close>: under the global HLE lock, select the thread of this
  core and try the context switch.
\<close>

definition Reschedule :: "'w env \<Rightarrow> nat \<Rightarrow> 'w world \<Rightarrow> 'w world" where
  "Reschedule env core_index w =
     (let w = emit HLE_lock w;
          w = call_ext (global_scheduler_SelectThread core_index)
                (SelectThread env core_index) w;
          w = call_ext (Scheduler_TryDoContextSwitch core_index)
                (TryDoContextSwitch env core_index) w
      in emit HLE_unlock w)"

text \<open>\<^verbatim>\<open>CoreManager::PrepareReschedule\<close> stops the physical core.\<close>

definition PrepareReschedule :: "'w env \<Rightarrow> nat \<Rightarrow> 'w world \<Rightarrow> 'w world" where
  "PrepareReschedule env core_index w =
     call_engine (physical_core_Stop core_index) (Stop env core_index) w"

text \<open>
  \<^verbatim>\<open>CoreManager::RunLoop(bool tight_loop)\<close>. The early \<^verbatim>\<open>return\<close> of the halt
  branch is the branch that ends in \<open>Reschedule\<close> without \<open>Advance\<close>.
\<close>

definition CoreManager_RunLoop :: "'w env \<Rightarrow> nat \<Rightarrow> bool \<Rightarrow> 'w world \<Rightarrow> 'w world" where
  "CoreManager_RunLoop env core_index tight_loop w =
     (let w = Reschedule env core_index w;
          sched_thread = GetCurrentThread env (ext w);
          w = emit (Kernel_GetCurrentThread sched_thread) w
      in case sched_thread of
           None \<Rightarrow>
             (let w = call_ext core_timing_Idle (Idle env) w;
                  w = PrepareReschedule env core_index w;
                  w = call_ext core_timing_Advance (Advance env) w
              in Reschedule env core_index w)
         | Some t \<Rightarrow>
             (let halt = GetCpuHaltFlag (gdb w);
                  w = emit (GDBStub_GetCpuHaltFlag halt) w
              in if halt then Reschedule env core_index w
                 else
                   (let step = GetThreadStepFlag (gdb w) t;
                        w = emit (GDBStub_GetThreadStepFlag t step) w;
                        w = (if step then call_gdb (GDBStub_Break False) (Break False) w
                             else w);
                        tight_loop = (if step then False else tight_loop);
                        w = (if tight_loop
                             then call_engine (physical_core_Run core_index)
                                    (Run env core_index) w
                             else call_engine (physical_core_Step core_index)
                                    (Step env core_index) w);
                        w = call_ext core_timing_Advance (Advance env) w
                    in Reschedule env core_index w)))"

text \<open>\<^verbatim>\<open>CoreManager::SingleStep\<close>.\<close>

definition SingleStep :: "'w env \<Rightarrow> nat \<Rightarrow> 'w world \<Rightarrow> 'w world" where
  "SingleStep env core_index w = CoreManager_RunLoop env core_index False w"

text \<open>The calls of one \<open>Reschedule\<close> on core \<open>core_index\<close>.\<close>

definition Reschedule_calls :: "nat \<Rightarrow> call list" where
  "Reschedule_calls core_index =
     [HLE_lock, global_scheduler_SelectThread core_index,
      Scheduler_TryDoContextSwitch core_index, HLE_unlock]"

text \<open>The calls a function added to the log: the log after it, without the log before.\<close>

definition new_calls :: "'w world \<Rightarrow> 'w world \<Rightarrow> call list" where
  "new_calls w w' = drop (length (calls w)) (calls w')"

section \<open>Settings, errors and pointers\<close>

text \<open>
  \<^verbatim>\<open>Settings::values\<close>: the two keys the managers read. The declaration
  (core/settings.h) is not part of the sources; \<^verbatim>\<open>gdbstub_loops\<close> is assigned to a
  \<^verbatim>\<open>const int\<close>.
\<close>

record Settings =
  use_multi_core :: bool
  gdbstub_loops :: int

text \<open>
  Modelled from the spec: the constant \<^verbatim>\<open>NUM_CPU_CORES\<close> is missing (its header is
  not part of the sources); the spec fixes the number of cores at four.
\<close>

definition NUM_CPU_CORES :: nat where
  "NUM_CPU_CORES = 4"

text \<open>
  A failed \<^verbatim>\<open>ASSERT\<close> is the error \<open>AssertionFailed\<close> (the spec calls it fatal). The
  dereference of a null pointer and an index past the end of a \<^verbatim>\<open>std::array\<close> have
  no defined behaviour in the source; the model stops with an error there.
\<close>

datatype error = AssertionFailed | NullPointer | OutOfRange

text \<open>\<^verbatim>\<open>*array[i]\<close> on an array of owning pointers.\<close>

definition deref_at :: "nat option list \<Rightarrow> nat \<Rightarrow> error + nat" where
  "deref_at array i =
     (if i < length array
      then (case array ! i of None \<Rightarrow> Inl NullPointer | Some obj \<Rightarrow> Inr obj)
      else Inl OutOfRange)"

text \<open>\<^verbatim>\<open>array[i].get()\<close>: the raw pointer, null or not.\<close>

definition get_at :: "nat option list \<Rightarrow> nat \<Rightarrow> error + nat option" where
  "get_at array i = (if i < length array then Inr (array ! i) else Inl OutOfRange)"

section \<open>CpuManager (src/core/cpu_manager.cpp)\<close>

text \<open>\<^verbatim>\<open>CpuManager::Initialize\<close> constructs the core manager of every index.\<close>

definition CpuManager_Initialize :: "'w world \<Rightarrow> 'w world" where
  "CpuManager_Initialize w =
     w\<lparr>core_managers := map Some [0..<length (core_managers w)]\<rparr>"

text \<open>\<^verbatim>\<open>CpuManager::Shutdown\<close> resets every core manager, in index order.\<close>

definition CpuManager_Shutdown :: "'w world \<Rightarrow> 'w world" where
  "CpuManager_Shutdown w =
     foldl (\<lambda>w i. emit (cpu_core_reset i) (w\<lparr>core_managers := (core_managers w)[i := None]\<rparr>))
       w [0..<length (core_managers w)]"

text \<open>\<^verbatim>\<open>CpuManager::GetCurrentCoreManager\<close> (both overloads).\<close>

definition CpuManager_GetCurrentCoreManager :: "'w world \<Rightarrow> error + nat" where
  "CpuManager_GetCurrentCoreManager w = deref_at (core_managers w) (active_core w)"

text \<open>
  The body of the \<^verbatim>\<open>for\<close> loop of \<^verbatim>\<open>CpuManager::RunLoop\<close>, at the current
  \<open>active_core\<close>. \<^verbatim>\<open>keep_running |= core_timing.CanCurrentContextRun()\<close> asks the
  timing a second time, after the slice.
\<close>

definition for_body ::
  "'w env \<Rightarrow> bool \<Rightarrow> bool \<Rightarrow> 'w world \<Rightarrow> error + bool \<times> 'w world" where
  "for_body env tight_loop keep_running w =
     (let w = call_ext (core_timing_SwitchContext (active_core w))
                (SwitchContext env (active_core w)) w;
          can = CanCurrentContextRun env (ext w);
          w = emit (core_timing_CanCurrentContextRun can) w
      in case (if can
               then (case deref_at (core_managers w) (active_core w) of
                       Inl e \<Rightarrow> Inl e
                     | Inr core_index \<Rightarrow>
                         Inr (CoreManager_RunLoop env core_index tight_loop
                                (emit (core_managers_RunLoop (active_core w) tight_loop) w)))
               else Inr w) of
           Inl e \<Rightarrow> Inl e
         | Inr w \<Rightarrow>
             (let can = CanCurrentContextRun env (ext w);
                  w = emit (core_timing_CanCurrentContextRun can) w
              in Inr (keep_running \<or> can, w)))"

lemma active_core_Reschedule [simp]:
  "active_core (Reschedule env c w) = active_core w"
  by (simp add: Reschedule_def call_ext_def emit_def Let_def)

lemma active_core_CoreManager_RunLoop [simp]:
  "active_core (CoreManager_RunLoop env c tight w) = active_core w"
  by (simp add: CoreManager_RunLoop_def PrepareReschedule_def call_ext_def call_engine_def
      call_gdb_def emit_def Let_def split_beta split: option.split)

lemma active_core_for_body:
  "for_body env tight k w = Inr (k', w') \<Longrightarrow> active_core w' = active_core w"
  by (auto simp: for_body_def call_ext_def emit_def Let_def split: if_splits sum.splits)

text \<open>
  \<^verbatim>\<open>for (active_core = 0; active_core < NUM_CPU_CORES; ++active_core)\<close>, entered with
  \<open>active_core\<close> already set to 0: the loop variable is the member itself.
\<close>

function for_cores ::
  "'w env \<Rightarrow> bool \<Rightarrow> bool \<Rightarrow> 'w world \<Rightarrow> error + bool \<times> 'w world" where
  "for_cores env tight_loop keep_running w =
     (if active_core w < NUM_CPU_CORES
      then (case for_body env tight_loop keep_running w of
              Inl e \<Rightarrow> Inl e
            | Inr (keep_running, w) \<Rightarrow>
                for_cores env tight_loop keep_running (w\<lparr>active_core := active_core w + 1\<rparr>))
      else Inr (keep_running, w))"
  by pat_completeness auto
termination
  by (relation "measure (\<lambda>(env, tight_loop, keep_running, w). NUM_CPU_CORES - active_core w)")
    (auto dest: active_core_for_body)

declare for_cores.simps [simp del]

text \<open>
  The \<^verbatim>\<open>do ... while (keep_running && (num_loops < max_loops))\<close> of
  \<^verbatim>\<open>CpuManager::RunLoop\<close>. It need not end: a run that never leaves the loop is
  \<open>None\<close>. The counter is a C++ \<^verbatim>\<open>int\<close>; it is incremented only while it is below
  \<open>max_loops\<close> or zero, so it cannot overflow.
\<close>

partial_function (option) do_while ::
  "'w env \<Rightarrow> bool \<Rightarrow> int \<Rightarrow> int \<Rightarrow> 'w world \<Rightarrow> (error + 'w world) option" where
  "do_while env tight_loop max_loops num_loops w =
     (case for_cores env tight_loop False (w\<lparr>active_core := 0\<rparr>) of
        Inl e \<Rightarrow> Some (Inl e)
      | Inr (keep_running, w) \<Rightarrow>
          (let conn = IsConnected (gdb w);
               w = emit (GDBStub_IsConnected conn) w;
               num_loops = (if conn then num_loops + 1 else num_loops)
           in if keep_running \<and> num_loops < max_loops
              then do_while env tight_loop max_loops num_loops w
              else Some (Inr w)))"

text \<open>\<^verbatim>\<open>CpuManager::RunLoop(bool tight_loop)\<close>.\<close>

definition CpuManager_RunLoop ::
  "'w env \<Rightarrow> Settings \<Rightarrow> bool \<Rightarrow> 'w world \<Rightarrow> (error + 'w world) option" where
  "CpuManager_RunLoop env values tight_loop w =
     (let en = IsServerEnabled (gdb w);
          w = emit (GDBStub_IsServerEnabled en) w;
          w = (if en then call_engine GDBStub_HandlePacket (HandlePacket env) w else w);
          w = call_ext core_timing_ResetRun (ResetRun env) w
      in do_while env tight_loop (gdbstub_loops values) 0 w)"

section \<open>The breakpoint table\<close>

text \<open>
  Modelled from the spec: the body of \<^verbatim>\<open>GDBStub::GetNextBreakpointFromAddress\<close> and
  the breakpoint table are missing (gdbstub.h declares the function; gdbstub.cpp is not
  part of the sources). The spec keeps the table ordered by address to answer this query,
  and has the function return the breakpoint of the given type with the lowest address
  at or above \<open>addr\<close>, or the sentinel \<open>{0, None}\<close>. The model is the scan of the
  ordered table for the first such entry. Addresses are unsigned 64-bit words.
\<close>

fun GetNextBreakpointFromAddress ::
  "BreakpointAddress list \<Rightarrow> VAddr \<Rightarrow> BreakpointType \<Rightarrow> BreakpointAddress" where
  "GetNextBreakpointFromAddress [] addr ty = \<lparr>address = 0, type = None_type\<rparr>"
| "GetNextBreakpointFromAddress (b # table) addr ty =
     (if type b = ty \<and> addr \<le> address b then b
      else GetNextBreakpointFromAddress table addr ty)"

section \<open>CpuCoreManager (second part of src/unnamed/part_001)\<close>

text \<open>
  \<^verbatim>\<open>CpuCoreManager::Initialize\<close>: a new barrier (modelled from the spec as a latch that
  is open), the exclusive monitor, and the \<^verbatim>\<open>Cpu\<close> of every index.
\<close>

definition CpuCoreManager_Initialize :: "'w world \<Rightarrow> 'w world" where
  "CpuCoreManager_Initialize w =
     w\<lparr>barrier := Some False, exclusive_monitor := Some (),
       cores := map Some [0..<length (cores w)]\<rparr>"

text \<open>
  The loop of \<^verbatim>\<open>CpuCoreManager::StartThreads\<close> over the helper threads. \<open>spawn index\<close>
  is the id of the host thread created for \<open>index\<close>; what that thread then does
  (\<^verbatim>\<open>RunCpuCore\<close>, concurrently) is not modelled.
\<close>

fun start_helpers :: "(nat \<Rightarrow> host_thread) \<Rightarrow> nat list \<Rightarrow> 'w world \<Rightarrow> error + 'w world" where
  "start_helpers spawn [] w = Inr w"
| "start_helpers spawn (index # rest) w =
     (case deref_at (cores w) (index + 1) of
        Inl e \<Rightarrow> Inl e
      | Inr cpu \<Rightarrow>
          (let w = emit (core_threads_create index)
                     (w\<lparr>core_threads := (core_threads w)[index := Some (spawn index)]\<rparr>);
               w = w\<lparr>thread_to_cpu := (thread_to_cpu w)(spawn index \<mapsto> Some cpu)\<rparr>
           in start_helpers spawn rest w))"

text \<open>\<^verbatim>\<open>CpuCoreManager::StartThreads\<close>, called on the host thread \<open>this_thread\<close>.\<close>

definition CpuCoreManager_StartThreads ::
  "Settings \<Rightarrow> host_thread \<Rightarrow> (nat \<Rightarrow> host_thread) \<Rightarrow> 'w world \<Rightarrow> error + 'w world" where
  "CpuCoreManager_StartThreads values this_thread spawn w =
     (case get_at (cores w) 0 of
        Inl e \<Rightarrow> Inl e
      | Inr cpu \<Rightarrow>
          (let w = w\<lparr>thread_to_cpu := (thread_to_cpu w)(this_thread \<mapsto> cpu)\<rparr>
           in if \<not> use_multi_core values then Inr w
              else start_helpers spawn [0..<length (core_threads w)] w))"

text \<open>
  The two range-\<^verbatim>\<open>for\<close> loops of \<^verbatim>\<open>CpuCoreManager::Shutdown\<close>, over the positions of
  \<open>core_threads\<close> and of \<open>cores\<close>.
\<close>

fun join_all :: "nat list \<Rightarrow> 'w world \<Rightarrow> error + 'w world" where
  "join_all [] w = Inr w"
| "join_all (i # rest) w =
     (case core_threads w ! i of
        None \<Rightarrow> Inl NullPointer
      | Some t \<Rightarrow>
          (let w = emit (core_threads_join i) w;
               w = emit (core_threads_reset i) (w\<lparr>core_threads := (core_threads w)[i := None]\<rparr>)
           in join_all rest w))"

fun shutdown_cores :: "'w env \<Rightarrow> nat list \<Rightarrow> 'w world \<Rightarrow> error + 'w world" where
  "shutdown_cores env [] w = Inr w"
| "shutdown_cores env (i # rest) w =
     (case cores w ! i of
        None \<Rightarrow> Inl NullPointer
      | Some cpu \<Rightarrow>
          (let w = call_ext (cpu_core_Shutdown i) (CpuShutdown env cpu) w;
               w = emit (cpu_core_reset i) (w\<lparr>cores := (cores w)[i := None]\<rparr>)
           in shutdown_cores env rest w))"

text \<open>
  \<^verbatim>\<open>CpuCoreManager::Shutdown\<close>. \<^verbatim>\<open>barrier->NotifyEnd()\<close> is modelled from the spec: it
  moves the latch to its ended state.
\<close>

definition CpuCoreManager_Shutdown :: "'w env \<Rightarrow> Settings \<Rightarrow> 'w world \<Rightarrow> error + 'w world" where
  "CpuCoreManager_Shutdown env values w =
     (case barrier w of
        None \<Rightarrow> Inl NullPointer
      | Some latch \<Rightarrow>
          (let w = emit barrier_NotifyEnd (w\<lparr>barrier := Some True\<rparr>)
           in case (if use_multi_core values
                    then join_all [0..<length (core_threads w)] w else Inr w) of
                Inl e \<Rightarrow> Inl e
              | Inr w \<Rightarrow>
                  (let w = emit thread_to_cpu_clear (w\<lparr>thread_to_cpu := Map.empty\<rparr>)
                   in case shutdown_cores env [0..<length (cores w)] w of
                        Inl e \<Rightarrow> Inl e
                      | Inr w \<Rightarrow>
                          (let w = emit exclusive_monitor_reset (w\<lparr>exclusive_monitor := None\<rparr>);
                               w = emit barrier_reset (w\<lparr>barrier := None\<rparr>)
                           in Inr w))))"

text \<open>
  \<^verbatim>\<open>CpuCoreManager::GetCurrentCore\<close> (both overloads), called on the host thread
  \<open>this_thread\<close>. The two \<^verbatim>\<open>ASSERT\<close>s guard the lookup and the pointer it found.
\<close>

definition CpuCoreManager_GetCurrentCore ::
  "Settings \<Rightarrow> host_thread \<Rightarrow> 'w world \<Rightarrow> error + nat" where
  "CpuCoreManager_GetCurrentCore values this_thread w =
     (if use_multi_core values
      then (case thread_to_cpu w this_thread of
              None \<Rightarrow> Inl AssertionFailed
            | Some search \<Rightarrow>
                (case search of None \<Rightarrow> Inl AssertionFailed | Some cpu \<Rightarrow> Inr cpu))
      else deref_at (cores w) (active_core w))"

text \<open>
  The body of the \<^verbatim>\<open>for\<close> loop of the older \<^verbatim>\<open>CpuCoreManager::RunLoop\<close>. It differs
  from the newer one in the object it dispatches to: \<^verbatim>\<open>cores[active_core]->RunLoop\<close>
  is \<^verbatim>\<open>Cpu::RunLoop\<close>, which is not part of the sources and is a parameter.
\<close>

definition old_for_body ::
  "'w env \<Rightarrow> bool \<Rightarrow> bool \<Rightarrow> 'w world \<Rightarrow> error + bool \<times> 'w world" where
  "old_for_body env tight_loop keep_running w =
     (let w = call_ext (core_timing_SwitchContext (active_core w))
                (SwitchContext env (active_core w)) w;
          can = CanCurrentContextRun env (ext w);
          w = emit (core_timing_CanCurrentContextRun can) w
      in case (if can
               then (case deref_at (cores w) (active_core w) of
                       Inl e \<Rightarrow> Inl e
                     | Inr cpu \<Rightarrow>
                         Inr (call_engine (cores_RunLoop (active_core w) tight_loop)
                                (CpuRunLoop env cpu tight_loop) w))
               else Inr w) of
           Inl e \<Rightarrow> Inl e
         | Inr w \<Rightarrow>
             (let can = CanCurrentContextRun env (ext w);
                  w = emit (core_timing_CanCurrentContextRun can) w
              in Inr (keep_running \<or> can, w)))"

lemma active_core_old_for_body:
  "old_for_body env tight k w = Inr (k', w') \<Longrightarrow> active_core w' = active_core w"
  by (auto simp: old_for_body_def call_ext_def call_engine_def emit_def Let_def split_beta
      split: if_splits sum.splits)

function old_for_cores ::
  "'w env \<Rightarrow> bool \<Rightarrow> bool \<Rightarrow> 'w world \<Rightarrow> error + bool \<times> 'w world" where
  "old_for_cores env tight_loop keep_running w =
     (if active_core w < NUM_CPU_CORES
      then (case old_for_body env tight_loop keep_running w of
              Inl e \<Rightarrow> Inl e
            | Inr (keep_running, w) \<Rightarrow>
                old_for_cores env tight_loop keep_running
                  (w\<lparr>active_core := active_core w + 1\<rparr>))
      else Inr (keep_running, w))"
  by pat_completeness auto
termination
  by (relation "measure (\<lambda>(env, tight_loop, keep_running, w). NUM_CPU_CORES - active_core w)")
    (auto dest: active_core_old_for_body)

declare old_for_cores.simps [simp del]

text \<open>
  The \<^verbatim>\<open>do ... while (keep_running)\<close> of the older \<^verbatim>\<open>CpuCoreManager::RunLoop\<close>: it
  serves a packet at the start of every iteration and has no iteration counter.
\<close>

partial_function (option) old_do_while ::
  "'w env \<Rightarrow> bool \<Rightarrow> 'w world \<Rightarrow> (error + 'w world) option" where
  "old_do_while env tight_loop w =
     (let w = call_engine GDBStub_HandlePacket (HandlePacket env) w
      in case old_for_cores env tight_loop False (w\<lparr>active_core := 0\<rparr>) of
           Inl e \<Rightarrow> Some (Inl e)
         | Inr (keep_running, w) \<Rightarrow>
             if keep_running then old_do_while env tight_loop w else Some (Inr w))"

text \<open>\<^verbatim>\<open>CpuCoreManager::RunLoop(bool tight_loop)\<close>, called on the host thread \<open>this_thread\<close>.\<close>

definition CpuCoreManager_RunLoop ::
  "'w env \<Rightarrow> host_thread \<Rightarrow> bool \<Rightarrow> 'w world \<Rightarrow> (error + 'w world) option" where
  "CpuCoreManager_RunLoop env this_thread tight_loop w =
     (case get_at (cores w) 0 of
        Inl e \<Rightarrow> Some (Inl e)
      | Inr cpu \<Rightarrow>
          (let w = w\<lparr>thread_to_cpu := (thread_to_cpu w)(this_thread \<mapsto> cpu)\<rparr>;
               w = call_ext core_timing_ResetRun (ResetRun env) w
           in old_do_while env tight_loop w))"

section \<open>Reading the call log\<close>

text \<open>The two calls that execute guest instructions.\<close>

fun is_Run :: "call \<Rightarrow> bool" where
  "is_Run (physical_core_Run c) = True"
| "is_Run _ = False"

fun is_Step :: "call \<Rightarrow> bool" where
  "is_Step (physical_core_Step c) = True"
| "is_Step _ = False"

text \<open>
  The calls that \<^verbatim>\<open>CpuManager::RunLoop\<close> makes itself, as opposed to the calls made
  inside the slices it dispatches; and the poll that ends every iteration of its loop.
\<close>

fun manager_call :: "call \<Rightarrow> bool" where
  "manager_call (core_timing_SwitchContext c) = True"
| "manager_call (core_timing_CanCurrentContextRun b) = True"
| "manager_call (core_managers_RunLoop c t) = True"
| "manager_call (GDBStub_IsConnected b) = True"
| "manager_call (GDBStub_IsServerEnabled b) = True"
| "manager_call GDBStub_HandlePacket = True"
| "manager_call core_timing_ResetRun = True"
| "manager_call _ = False"

fun is_IsConnected :: "call \<Rightarrow> bool" where
  "is_IsConnected (GDBStub_IsConnected b) = True"
| "is_IsConnected _ = False"

text \<open>
  The manager's calls for one core: the context switch, the first query with its answer
  \<open>fst p\<close>, the dispatch if that answer was true, and the second query with its answer
  \<open>snd p\<close>. A rotation is the slots of the cores from \<open>first\<close> up, in index order.
\<close>

definition slot_calls :: "bool \<Rightarrow> nat \<Rightarrow> bool \<times> bool \<Rightarrow> call list" where
  "slot_calls tight_loop c p =
     [core_timing_SwitchContext c, core_timing_CanCurrentContextRun (fst p)] @
     (if fst p then [core_managers_RunLoop c tight_loop] else []) @
     [core_timing_CanCurrentContextRun (snd p)]"

definition rotation_calls :: "bool \<Rightarrow> nat \<Rightarrow> (bool \<times> bool) list \<Rightarrow> call list" where
  "rotation_calls tight_loop first ps =
     concat (map2 (slot_calls tight_loop) [first..<NUM_CPU_CORES] ps)"

text \<open>Every iteration of the loop polls \<open>IsConnected\<close> once, at its end.\<close>

definition loop_iterations :: "call list \<Rightarrow> nat" where
  "loop_iterations xs = length (filter is_IsConnected xs)"

text \<open>The log of a run that returned without error.\<close>

definition calls_of :: "(error + 'w world) option \<Rightarrow> call list option" where
  "calls_of r = (case r of Some (Inr w) \<Rightarrow> Some (calls w) | _ \<Rightarrow> None)"

text \<open>An array of pointers after the ones at the given positions were reset.\<close>

definition clear_at :: "nat list \<Rightarrow> 'a option list \<Rightarrow> 'a option list" where
  "clear_at positions array = fold (\<lambda>i xs. xs[i := None]) positions array"

section \<open>Assumptions on the surroundings\<close>

text \<open>
  The engine and the packet pump leave the connection state as it is, at the value
  \<open>b\<close>.
\<close>

definition stays_connected :: "'w env \<Rightarrow> bool \<Rightarrow> bool" where
  "stays_connected env b =
     (\<forall>c g x. connected g = b \<longrightarrow>
        connected (fst (Run env c (g, x))) = b \<and> connected (fst (Step env c (g, x))) = b \<and>
        connected (fst (Stop env c (g, x))) = b \<and> connected (fst (HandlePacket env (g, x))) = b)"

text \<open>
  The core managers as \<^verbatim>\<open>CpuManager::Initialize\<close> leaves them: one per core, each
  constructed with its index.
\<close>

definition initialised :: "'w world \<Rightarrow> bool" where
  "initialised w = (core_managers w = map Some [0..<NUM_CPU_CORES])"

section \<open>A small concrete system\<close>

text \<open>
  Collaborators that do nothing but count: the timing has a budget that \<open>Advance\<close>
  decrements, and a context can run while the budget is positive. The scheduler always
  reports the thread it was given.
\<close>

definition sim_env :: "(thread option \<times> nat) env" where
  "sim_env =
     \<lparr>SelectThread = (\<lambda>c x. x), TryDoContextSwitch = (\<lambda>c x. x), GetCurrentThread = fst,
      Idle = (\<lambda>x. x), Advance = (\<lambda>x. (fst x, snd x - 1)), ResetRun = (\<lambda>x. x),
      SwitchContext = (\<lambda>c x. x), CanCurrentContextRun = (\<lambda>x. 0 < snd x),
      Run = (\<lambda>c m. m), Step = (\<lambda>c m. m), Stop = (\<lambda>c m. m), HandlePacket = (\<lambda>m. m),
      CpuRunLoop = (\<lambda>c t m. m), CpuShutdown = (\<lambda>c x. x)\<rparr>"

text \<open>The same collaborators with a timing whose contexts can always run.\<close>

definition busy_env :: "(thread option \<times> nat) env" where
  "busy_env = sim_env\<lparr>CanCurrentContextRun := (\<lambda>x. True)\<rparr>"

definition sim_gdb :: "bool \<Rightarrow> bool \<Rightarrow> thread set \<Rightarrow> GdbState" where
  "sim_gdb conn halt steps =
     \<lparr>enabled = True, connected = conn, deferred_start = False, halt_flag = halt,
      memory_break = False, per_thread_step = steps, listen_port = 24689\<rparr>"

definition sim_world :: "GdbState \<Rightarrow> thread option \<Rightarrow> nat \<Rightarrow> (thread option \<times> nat) world" where
  "sim_world g t budget =
     \<lparr>gdb = g, ext = (t, budget), active_core = 0,
      core_managers = [Some 0, Some 1, Some 2, Some 3],
      cores = [Some 0, Some 1, Some 2, Some 3],
      core_threads = [None, None, None], thread_to_cpu = Map.empty,
      barrier = Some False, exclusive_monitor = Some (), calls = []\<rparr>"

definition sim_table :: "BreakpointAddress list" where
  "sim_table =
     [\<lparr>address = 0x1000, type = Execute\<rparr>, \<lparr>address = 0x2000, type = Write\<rparr>,
      \<lparr>address = 0x3000, type = Execute\<rparr>]"

definition multi_core :: Settings where
  "multi_core = \<lparr>use_multi_core = True, gdbstub_loops = 2\<rparr>"

definition single_core :: Settings where
  "single_core = \<lparr>use_multi_core = False, gdbstub_loops = 2\<rparr>"

text \<open>
  The concrete system after the helper threads 101, 102 and 103 were started from host
  thread 100.
\<close>

definition sim_started :: "(thread option \<times> nat) world" where
  "sim_started =
     (sim_world (sim_gdb False False {}) None 0)
       \<lparr>core_threads := [Some 101, Some 102, Some 103],
        thread_to_cpu := [100 \<mapsto> Some 0, 101 \<mapsto> Some 1, 102 \<mapsto> Some 2, 103 \<mapsto> Some 3]\<rparr>"

definition loops :: "int \<Rightarrow> Settings" where
  "loops n = \<lparr>use_multi_core = False, gdbstub_loops = n\<rparr>"

section \<open>Properties of the per-core run loop\<close>

lemma calls_emit: "calls (emit c w) = calls w @ [c]"
  and gdb_emit: "gdb (emit c w) = gdb w"
  and ext_emit: "ext (emit c w) = ext w"
  by (simp_all add: emit_def)

lemma calls_call_ext: "calls (call_ext c f w) = calls w @ [c]"
  and gdb_call_ext: "gdb (call_ext c f w) = gdb w"
  and ext_call_ext: "ext (call_ext c f w) = f (ext w)"
  by (simp_all add: call_ext_def emit_def)

lemma calls_call_engine: "calls (call_engine c f w) = calls w @ [c]"
  and gdb_call_engine: "gdb (call_engine c f w) = fst (f (gdb w, ext w))"
  and ext_call_engine: "ext (call_engine c f w) = snd (f (gdb w, ext w))"
  by (simp_all add: call_engine_def emit_def split_beta)

lemma calls_call_gdb: "calls (call_gdb c f w) = calls w @ [c]"
  and gdb_call_gdb: "gdb (call_gdb c f w) = f (gdb w)"
  and ext_call_gdb: "ext (call_gdb c f w) = ext w"
  by (simp_all add: call_gdb_def emit_def)

lemma calls_Reschedule:
  "calls (Reschedule env c w) = calls w @ Reschedule_calls c"
  by (simp add: Reschedule_def Reschedule_calls_def call_ext_def emit_def Let_def)

lemma gdb_Reschedule: "gdb (Reschedule env c w) = gdb w"
  by (simp add: Reschedule_def call_ext_def emit_def Let_def)

lemma ext_Reschedule:
  "ext (Reschedule env c w) = TryDoContextSwitch env c (SelectThread env c (ext w))"
  by (simp add: Reschedule_def call_ext_def emit_def Let_def)

lemmas world_simps =
  calls_emit gdb_emit ext_emit calls_call_ext gdb_call_ext ext_call_ext
  calls_call_engine gdb_call_engine ext_call_engine
  calls_call_gdb gdb_call_gdb ext_call_gdb
  calls_Reschedule gdb_Reschedule ext_Reschedule

lemma RunLoop_idle:
  assumes "GetCurrentThread env (ext (Reschedule env c w)) = None"
  shows "calls (CoreManager_RunLoop env c tight w) =
    calls w @ Reschedule_calls c @
      [Kernel_GetCurrentThread None, core_timing_Idle, physical_core_Stop c,
       core_timing_Advance] @ Reschedule_calls c"
  using assms
  by (simp add: CoreManager_RunLoop_def PrepareReschedule_def Let_def world_simps)

lemma RunLoop_halted:
  assumes "GetCurrentThread env (ext (Reschedule env c w)) = Some t"
    and "GetCpuHaltFlag (gdb w)"
  shows "calls (CoreManager_RunLoop env c tight w) =
    calls w @ Reschedule_calls c @
      [Kernel_GetCurrentThread (Some t), GDBStub_GetCpuHaltFlag True] @ Reschedule_calls c"
   and "gdb (CoreManager_RunLoop env c tight w) = gdb w"
   and "ext (CoreManager_RunLoop env c tight w) =
          TryDoContextSwitch env c (SelectThread env c (ext (Reschedule env c w)))"
  using assms
  by (simp_all add: CoreManager_RunLoop_def Let_def world_simps)

lemma RunLoop_step:
  assumes "GetCurrentThread env (ext (Reschedule env c w)) = Some t"
    and "\<not> GetCpuHaltFlag (gdb w)" and "GetThreadStepFlag (gdb w) t"
  shows "calls (CoreManager_RunLoop env c tight w) =
    calls w @ Reschedule_calls c @
      [Kernel_GetCurrentThread (Some t), GDBStub_GetCpuHaltFlag False,
       GDBStub_GetThreadStepFlag t True, GDBStub_Break False, physical_core_Step c,
       core_timing_Advance] @ Reschedule_calls c"
   and "gdb (CoreManager_RunLoop env c tight w) =
          fst (Step env c (Break False (gdb w), ext (Reschedule env c w)))"
  using assms
  by (simp_all add: CoreManager_RunLoop_def Let_def world_simps)

lemma RunLoop_run:
  assumes "GetCurrentThread env (ext (Reschedule env c w)) = Some t"
    and "\<not> GetCpuHaltFlag (gdb w)" and "\<not> GetThreadStepFlag (gdb w) t"
  shows "calls (CoreManager_RunLoop env c tight w) =
    calls w @ Reschedule_calls c @
      [Kernel_GetCurrentThread (Some t), GDBStub_GetCpuHaltFlag False,
       GDBStub_GetThreadStepFlag t False,
       if tight then physical_core_Run c else physical_core_Step c,
       core_timing_Advance] @ Reschedule_calls c"
  using assms
  by (simp add: CoreManager_RunLoop_def Let_def world_simps)

text \<open>
  Claim C1. When the scheduler reports a current thread and the halt flag is set on
  entry, \<^verbatim>\<open>CoreManager::RunLoop\<close> does the opening \<open>Reschedule\<close>, reads the thread
  and the flag, does the second \<open>Reschedule\<close> and returns: the engine is neither run
  nor stepped, the timing is neither advanced nor idled, and the stub is unchanged.
\<close>

theorem C1_halted_slice_only_reschedules:
  assumes "GetCurrentThread env (ext (Reschedule env core_index w)) = Some t"
    and "GetCpuHaltFlag (gdb w)"
  shows "new_calls w (CoreManager_RunLoop env core_index tight_loop w) =
           Reschedule_calls core_index @
           [Kernel_GetCurrentThread (Some t), GDBStub_GetCpuHaltFlag True] @
           Reschedule_calls core_index
         \<and> (\<forall>c. physical_core_Run c \<notin> set (new_calls w (CoreManager_RunLoop env core_index tight_loop w)))
         \<and> (\<forall>c. physical_core_Step c \<notin> set (new_calls w (CoreManager_RunLoop env core_index tight_loop w)))
         \<and> core_timing_Advance \<notin> set (new_calls w (CoreManager_RunLoop env core_index tight_loop w))
         \<and> core_timing_Idle \<notin> set (new_calls w (CoreManager_RunLoop env core_index tight_loop w))
         \<and> gdb (CoreManager_RunLoop env core_index tight_loop w) = gdb w"
proof -
  have "new_calls w (CoreManager_RunLoop env core_index tight_loop w) =
           Reschedule_calls core_index @
           [Kernel_GetCurrentThread (Some t), GDBStub_GetCpuHaltFlag True] @
           Reschedule_calls core_index"
    using RunLoop_halted(1) [OF assms] by (simp add: new_calls_def)
  then show ?thesis
    using RunLoop_halted(2) [OF assms] by (simp add: Reschedule_calls_def)
qed

theorem C1_witness:
  "GetCurrentThread sim_env (ext (Reschedule sim_env 2 (sim_world (sim_gdb True True {}) (Some 7) 5))) = Some 7
   \<and> GetCpuHaltFlag (gdb (sim_world (sim_gdb True True {}) (Some 7) 5))
   \<and> calls (CoreManager_RunLoop sim_env 2 True (sim_world (sim_gdb True True {}) (Some 7) 5)) =
       [HLE_lock, global_scheduler_SelectThread 2, Scheduler_TryDoContextSwitch 2, HLE_unlock,
        Kernel_GetCurrentThread (Some 7), GDBStub_GetCpuHaltFlag True,
        HLE_lock, global_scheduler_SelectThread 2, Scheduler_TryDoContextSwitch 2, HLE_unlock]"
proof -
  let ?w = "sim_world (sim_gdb True True {}) (Some 7) 5"
  have thread: "GetCurrentThread sim_env (ext (Reschedule sim_env 2 ?w)) = Some 7"
    by (simp add: ext_Reschedule sim_env_def sim_world_def)
  have halt: "GetCpuHaltFlag (gdb ?w)"
    by (simp add: GetCpuHaltFlag_def sim_world_def sim_gdb_def)
  have "calls ?w = []"
    by (simp add: sim_world_def)
  with C1_halted_slice_only_reschedules [OF thread halt, of True] thread halt
  show ?thesis
    by (simp add: new_calls_def Reschedule_calls_def)
qed

text \<open>
  Claim C2. When the halt flag is clear on entry, the scheduler reports a current thread
  \<open>t\<close> and the step flag of \<open>t\<close> is set, \<^verbatim>\<open>CoreManager::RunLoop\<close> calls
  \<^verbatim>\<open>GDBStub::Break()\<close> (its default argument: no memory break) before it executes,
  then steps the engine exactly once and never runs it, whatever \<open>tight_loop\<close> is.
  \<open>Break\<close> is modelled from the spec as setting the halt flag; the flag is therefore
  set on exit, provided the engine's \<open>Step\<close> does not clear a set halt flag (the spec:
  the flag is cleared only on the debugger's continue packets).
\<close>

theorem C2_step_flag_forces_single_step:
  assumes "\<not> GetCpuHaltFlag (gdb w)"
    and "GetCurrentThread env (ext (Reschedule env core_index w)) = Some t"
    and "GetThreadStepFlag (gdb w) t"
    and "\<And>g x. halt_flag g \<Longrightarrow> halt_flag (fst (Step env core_index (g, x)))"
  shows "new_calls w (CoreManager_RunLoop env core_index tight_loop w) =
           Reschedule_calls core_index @
           [Kernel_GetCurrentThread (Some t), GDBStub_GetCpuHaltFlag False,
            GDBStub_GetThreadStepFlag t True, GDBStub_Break False,
            physical_core_Step core_index, core_timing_Advance] @
           Reschedule_calls core_index
         \<and> filter is_Step (new_calls w (CoreManager_RunLoop env core_index tight_loop w)) =
             [physical_core_Step core_index]
         \<and> filter is_Run (new_calls w (CoreManager_RunLoop env core_index tight_loop w)) = []
         \<and> GetCpuHaltFlag (gdb (CoreManager_RunLoop env core_index tight_loop w))"
proof -
  have new: "new_calls w (CoreManager_RunLoop env core_index tight_loop w) =
           Reschedule_calls core_index @
           [Kernel_GetCurrentThread (Some t), GDBStub_GetCpuHaltFlag False,
            GDBStub_GetThreadStepFlag t True, GDBStub_Break False,
            physical_core_Step core_index, core_timing_Advance] @
           Reschedule_calls core_index"
    using RunLoop_step(1) [OF assms(2) assms(1) assms(3)] by (simp add: new_calls_def)
  have "halt_flag (Break False (gdb w))"
    by (simp add: Break_def)
  then have "halt_flag (fst (Step env core_index (Break False (gdb w), ext (Reschedule env core_index w))))"
    by (rule assms(4))
  then have halt: "GetCpuHaltFlag (gdb (CoreManager_RunLoop env core_index tight_loop w))"
    using RunLoop_step(2) [OF assms(2) assms(1) assms(3)] by (simp add: GetCpuHaltFlag_def)
  show ?thesis
    using halt by (simp add: new Reschedule_calls_def)
qed

theorem C2_witness:
  "\<not> GetCpuHaltFlag (gdb (sim_world (sim_gdb True False {7}) (Some 7) 5))
   \<and> GetCurrentThread sim_env (ext (Reschedule sim_env 2 (sim_world (sim_gdb True False {7}) (Some 7) 5))) = Some 7
   \<and> GetThreadStepFlag (gdb (sim_world (sim_gdb True False {7}) (Some 7) 5)) 7
   \<and> (\<forall>g x. halt_flag (fst (Step sim_env 2 (g, x))) = halt_flag g)
   \<and> calls (CoreManager_RunLoop sim_env 2 True (sim_world (sim_gdb True False {7}) (Some 7) 5)) =
       [HLE_lock, global_scheduler_SelectThread 2, Scheduler_TryDoContextSwitch 2, HLE_unlock,
        Kernel_GetCurrentThread (Some 7), GDBStub_GetCpuHaltFlag False,
        GDBStub_GetThreadStepFlag 7 True, GDBStub_Break False, physical_core_Step 2,
        core_timing_Advance,
        HLE_lock, global_scheduler_SelectThread 2, Scheduler_TryDoContextSwitch 2, HLE_unlock]
   \<and> GetCpuHaltFlag (gdb (CoreManager_RunLoop sim_env 2 True (sim_world (sim_gdb True False {7}) (Some 7) 5)))"
proof -
  let ?w = "sim_world (sim_gdb True False {7}) (Some 7) 5"
  have nohalt: "\<not> GetCpuHaltFlag (gdb ?w)"
    by (simp add: GetCpuHaltFlag_def sim_world_def sim_gdb_def)
  have thread: "GetCurrentThread sim_env (ext (Reschedule sim_env 2 ?w)) = Some 7"
    by (simp add: ext_Reschedule sim_env_def sim_world_def)
  have step: "GetThreadStepFlag (gdb ?w) 7"
    by (simp add: GetThreadStepFlag_def sim_world_def sim_gdb_def)
  have keeps: "halt_flag (fst (Step sim_env 2 (g, x))) = halt_flag g" for g x
    by (simp add: sim_env_def)
  have "calls ?w = []"
    by (simp add: sim_world_def)
  with C2_step_flag_forces_single_step [OF nohalt thread step, of True] nohalt thread step keeps
  show ?thesis
    by (simp add: new_calls_def Reschedule_calls_def)
qed

text \<open>
  Claim C3. When the scheduler reports no current thread, \<^verbatim>\<open>CoreManager::RunLoop\<close>
  idles the timing exactly once, then calls \<open>PrepareReschedule\<close> (the engine's
  \<open>Stop\<close>), advances the timing and returns after a final \<open>Reschedule\<close>; the
  engine is neither run nor stepped.
\<close>

theorem C3_idle_slice:
  assumes "GetCurrentThread env (ext (Reschedule env core_index w)) = None"
  shows "new_calls w (CoreManager_RunLoop env core_index tight_loop w) =
           Reschedule_calls core_index @
           [Kernel_GetCurrentThread None, core_timing_Idle,
            physical_core_Stop core_index, core_timing_Advance] @
           Reschedule_calls core_index
         \<and> count_list (new_calls w (CoreManager_RunLoop env core_index tight_loop w))
             core_timing_Idle = 1
         \<and> filter is_Run (new_calls w (CoreManager_RunLoop env core_index tight_loop w)) = []
         \<and> filter is_Step (new_calls w (CoreManager_RunLoop env core_index tight_loop w)) = []"
proof -
  have new: "new_calls w (CoreManager_RunLoop env core_index tight_loop w) =
           Reschedule_calls core_index @
           [Kernel_GetCurrentThread None, core_timing_Idle,
            physical_core_Stop core_index, core_timing_Advance] @
           Reschedule_calls core_index"
    using RunLoop_idle [OF assms] by (simp add: new_calls_def)
  show ?thesis
    unfolding new by (simp add: Reschedule_calls_def)
qed

theorem C3_witness:
  "GetCurrentThread sim_env (ext (Reschedule sim_env 1 (sim_world (sim_gdb False False {}) None 5))) = None
   \<and> calls (CoreManager_RunLoop sim_env 1 True (sim_world (sim_gdb False False {}) None 5)) =
       [HLE_lock, global_scheduler_SelectThread 1, Scheduler_TryDoContextSwitch 1, HLE_unlock,
        Kernel_GetCurrentThread None, core_timing_Idle, physical_core_Stop 1,
        core_timing_Advance,
        HLE_lock, global_scheduler_SelectThread 1, Scheduler_TryDoContextSwitch 1, HLE_unlock]"
proof -
  let ?w = "sim_world (sim_gdb False False {}) None 5"
  have thread: "GetCurrentThread sim_env (ext (Reschedule sim_env 1 ?w)) = None"
    by (simp add: ext_Reschedule sim_env_def sim_world_def)
  have "calls ?w = []"
    by (simp add: sim_world_def)
  with C3_idle_slice [OF thread, of True] thread
  show ?thesis
    by (simp add: new_calls_def Reschedule_calls_def)
qed

text \<open>
  Claim C8. On every path (idle, halted, run, single step) the calls of one
  \<^verbatim>\<open>CoreManager::RunLoop\<close> begin with the calls of a \<open>Reschedule\<close> and end with the
  calls of another one.
\<close>

theorem C8_slice_between_two_reschedules:
  "\<exists>mid. new_calls w (CoreManager_RunLoop env core_index tight_loop w) =
     Reschedule_calls core_index @ mid @ Reschedule_calls core_index"
proof (cases "GetCurrentThread env (ext (Reschedule env core_index w))")
  case None
  from RunLoop_idle [OF this] show ?thesis
    by (simp add: new_calls_def)
next
  case (Some t)
  show ?thesis
  proof (cases "GetCpuHaltFlag (gdb w)")
    case True
    from RunLoop_halted(1) [OF Some True] show ?thesis
      by (simp add: new_calls_def)
  next
    case False
    show ?thesis
    proof (cases "GetThreadStepFlag (gdb w) t")
      case True
      from RunLoop_step(1) [OF Some False True] show ?thesis
        by (simp add: new_calls_def)
    next
      case nostep: False
      from RunLoop_run [OF Some False nostep] show ?thesis
        by (simp add: new_calls_def)
    qed
  qed
qed

text \<open>
  Claim C10. The halt flag is consulted only when there is a current thread: with no
  current thread, \<^verbatim>\<open>CoreManager::RunLoop\<close> idles the timing and later advances it
  although the halt flag is set, and never asks for the flag.
\<close>

theorem C10_idle_ignores_halt_flag:
  assumes "GetCurrentThread env (ext (Reschedule env core_index w)) = None"
    and "GetCpuHaltFlag (gdb w)"
  shows "(\<exists>before between after.
            new_calls w (CoreManager_RunLoop env core_index tight_loop w) =
              before @ [core_timing_Idle] @ between @ [core_timing_Advance] @ after)
         \<and> (\<forall>b. GDBStub_GetCpuHaltFlag b \<notin>
               set (new_calls w (CoreManager_RunLoop env core_index tight_loop w)))"
proof -
  have new: "new_calls w (CoreManager_RunLoop env core_index tight_loop w) =
           (Reschedule_calls core_index @ [Kernel_GetCurrentThread None]) @ [core_timing_Idle] @
            [physical_core_Stop core_index] @ [core_timing_Advance] @
           Reschedule_calls core_index"
    using RunLoop_idle [OF assms(1)] by (simp add: new_calls_def)
  have "\<exists>before between after.
            new_calls w (CoreManager_RunLoop env core_index tight_loop w) =
              before @ [core_timing_Idle] @ between @ [core_timing_Advance] @ after"
    using new by blast
  moreover have "\<forall>b. GDBStub_GetCpuHaltFlag b \<notin>
               set (new_calls w (CoreManager_RunLoop env core_index tight_loop w))"
    unfolding new by (simp add: Reschedule_calls_def)
  ultimately show ?thesis by blast
qed

theorem C10_witness:
  "GetCurrentThread sim_env (ext (Reschedule sim_env 3 (sim_world (sim_gdb True True {}) None 5))) = None
   \<and> GetCpuHaltFlag (gdb (sim_world (sim_gdb True True {}) None 5))
   \<and> (\<exists>before between after.
         calls (CoreManager_RunLoop sim_env 3 False (sim_world (sim_gdb True True {}) None 5)) =
           before @ [core_timing_Idle] @ between @ [core_timing_Advance] @ after)"
proof -
  let ?w = "sim_world (sim_gdb True True {}) None 5"
  have thread: "GetCurrentThread sim_env (ext (Reschedule sim_env 3 ?w)) = None"
    by (simp add: ext_Reschedule sim_env_def sim_world_def)
  have halt: "GetCpuHaltFlag (gdb ?w)"
    by (simp add: GetCpuHaltFlag_def sim_world_def sim_gdb_def)
  have "calls ?w = []"
    by (simp add: sim_world_def)
  with C10_idle_ignores_halt_flag [OF thread halt, of False] thread halt
  show ?thesis
    by (simp add: new_calls_def)
qed


section \<open>Properties of the breakpoint query\<close>

lemma GetNext_sentinel:
  "\<not> (\<exists>b \<in> set table. type b = ty \<and> addr \<le> address b) \<Longrightarrow>
   GetNextBreakpointFromAddress table addr ty = \<lparr>address = 0, type = None_type\<rparr>"
  by (induction table) auto

lemma GetNext_found:
  "\<exists>b \<in> set table. type b = ty \<and> addr \<le> address b \<Longrightarrow>
   GetNextBreakpointFromAddress table addr ty \<in> set table
   \<and> type (GetNextBreakpointFromAddress table addr ty) = ty
   \<and> addr \<le> address (GetNextBreakpointFromAddress table addr ty)"
  by (induction table) auto

lemma GetNext_least:
  "sorted (map address table) \<Longrightarrow> b \<in> set table \<Longrightarrow> type b = ty \<Longrightarrow> addr \<le> address b \<Longrightarrow>
   address (GetNextBreakpointFromAddress table addr ty) \<le> address b"
proof (induction table)
  case Nil
  then show ?case by simp
next
  case (Cons a table)
  show ?case
  proof (cases "type a = ty \<and> addr \<le> address a")
    case True
    with Cons.prems show ?thesis by auto
  next
    case False
    with Cons.prems have "b \<in> set table" by auto
    with Cons False show ?thesis by simp
  qed
qed

text \<open>
  Claim C9. On a table ordered by address, \<open>GetNextBreakpointFromAddress\<close> returns a
  stored breakpoint of the requested type whose address is at or above \<open>addr\<close> and is
  the least such address; when the table has no such breakpoint it returns the sentinel
  of address 0 and type \<open>None\<close>.
\<close>

theorem C9_next_breakpoint_is_least:
  assumes "sorted (map address table)"
  shows "if \<exists>b \<in> set table. type b = ty \<and> addr \<le> address b
         then GetNextBreakpointFromAddress table addr ty \<in> set table
              \<and> type (GetNextBreakpointFromAddress table addr ty) = ty
              \<and> addr \<le> address (GetNextBreakpointFromAddress table addr ty)
              \<and> (\<forall>b \<in> set table. type b = ty \<and> addr \<le> address b \<longrightarrow>
                    address (GetNextBreakpointFromAddress table addr ty) \<le> address b)
         else GetNextBreakpointFromAddress table addr ty = \<lparr>address = 0, type = None_type\<rparr>"
proof (cases "\<exists>b \<in> set table. type b = ty \<and> addr \<le> address b")
  case True
  with GetNext_found [OF True] GetNext_least [OF assms] show ?thesis
    by auto
next
  case False
  from GetNext_sentinel [OF False] False show ?thesis
    by (simp only: if_False)
qed

theorem C9_witness:
  "sorted (map address sim_table)
   \<and> GetNextBreakpointFromAddress sim_table 0x1800 Execute = \<lparr>address = 0x3000, type = Execute\<rparr>
   \<and> GetNextBreakpointFromAddress sim_table 0x1800 Read = \<lparr>address = 0, type = None_type\<rparr>
   \<and> GetNextBreakpointFromAddress sim_table 0x3001 Execute = \<lparr>address = 0, type = None_type\<rparr>"
proof -
  have s: "sorted (map address sim_table)"
    by (simp add: sim_table_def)
  from C9_next_breakpoint_is_least [OF s, of Execute "0x1800"]
       C9_next_breakpoint_is_least [OF s, of Read "0x1800"]
       C9_next_breakpoint_is_least [OF s, of Execute "0x3001"] s
  show ?thesis
    by (simp add: sim_table_def)
qed

section \<open>Properties of the older manager\<close>

lemma length_clear_at [simp]: "length (clear_at ps xs) = length xs"
  unfolding clear_at_def by (induction ps arbitrary: xs) auto

lemma nth_clear_at:
  "j < length xs \<Longrightarrow> clear_at ps xs ! j = (if j \<in> set ps then None else xs ! j)"
  unfolding clear_at_def
  by (induction ps arbitrary: xs) (auto simp: nth_list_update)

lemma clear_at_all: "clear_at [0..<length xs] xs = replicate (length xs) None"
  by (rule nth_equalityI) (simp_all add: nth_clear_at)

lemma join_all_ok:
  assumes "distinct ps" and "\<forall>i \<in> set ps. i < length (core_threads w) \<and> core_threads w ! i \<noteq> None"
  shows "join_all ps w =
           Inr (w\<lparr>core_threads := clear_at ps (core_threads w),
                  calls := calls w @ concat (map (\<lambda>i. [core_threads_join i, core_threads_reset i]) ps)\<rparr>)"
  using assms
proof (induction ps arbitrary: w)
  case Nil
  then show ?case by (simp add: clear_at_def)
next
  case (Cons i ps)
  let ?w = "emit (core_threads_reset i)
              (emit (core_threads_join i) w\<lparr>core_threads := (core_threads (emit (core_threads_join i) w))[i := None]\<rparr>)"
  from Cons.prems obtain t where t: "core_threads w ! i = Some t"
    by auto
  have "distinct ps" using Cons.prems by simp
  moreover have "\<forall>j \<in> set ps. j < length (core_threads ?w) \<and> core_threads ?w ! j \<noteq> None"
    using Cons.prems by (auto simp: emit_def nth_list_update)
  ultimately have "join_all ps ?w =
      Inr (?w\<lparr>core_threads := clear_at ps (core_threads ?w),
             calls := calls ?w @ concat (map (\<lambda>i. [core_threads_join i, core_threads_reset i]) ps)\<rparr>)"
    by (rule Cons.IH)
  then show ?case
    using t by (simp add: Let_def emit_def clear_at_def)
qed

lemma shutdown_cores_ok:
  assumes "distinct ps" and "\<forall>i \<in> set ps. i < length (cores w) \<and> cores w ! i \<noteq> None"
  shows "shutdown_cores env ps w =
           Inr (w\<lparr>cores := clear_at ps (cores w),
                  ext := fold (\<lambda>i. CpuShutdown env (the (cores w ! i))) ps (ext w),
                  calls := calls w @ concat (map (\<lambda>i. [cpu_core_Shutdown i, cpu_core_reset i]) ps)\<rparr>)"
  using assms
proof (induction ps arbitrary: w)
  case Nil
  then show ?case by (simp add: clear_at_def)
next
  case (Cons i ps)
  from Cons.prems obtain cpu where cpu: "cores w ! i = Some cpu"
    by auto
  let ?w1 = "call_ext (cpu_core_Shutdown i) (CpuShutdown env cpu) w"
  let ?w = "emit (cpu_core_reset i) (?w1\<lparr>cores := (cores ?w1)[i := None]\<rparr>)"
  have "distinct ps" using Cons.prems by simp
  moreover have *: "\<forall>j \<in> set ps. j < length (cores ?w) \<and> cores ?w ! j \<noteq> None"
    using Cons.prems by (auto simp: emit_def call_ext_def nth_list_update)
  ultimately have "shutdown_cores env ps ?w =
      Inr (?w\<lparr>cores := clear_at ps (cores ?w),
             ext := fold (\<lambda>i. CpuShutdown env (the (cores ?w ! i))) ps (ext ?w),
             calls := calls ?w @ concat (map (\<lambda>i. [cpu_core_Shutdown i, cpu_core_reset i]) ps)\<rparr>)"
    by (rule Cons.IH)
  moreover have "fold (\<lambda>j. CpuShutdown env (the (cores ?w ! j))) ps x =
                 fold (\<lambda>j. CpuShutdown env (the (cores w ! j))) ps x" for x
    using Cons.prems by (intro fold_cong) (auto simp: emit_def call_ext_def nth_list_update)
  ultimately show ?case
    using cpu by (simp add: Let_def emit_def call_ext_def clear_at_def)
qed

lemma upt_3: "[0..<3] = [0, 1, 2]" and upt_4: "[0..<4] = [0, 1, 2, 3]"
  by (simp_all add: upt_rec)

lemma StartThreads_sim:
  "CpuCoreManager_StartThreads multi_core 100 (\<lambda>index. 101 + index)
     (CpuCoreManager_Initialize (sim_world (sim_gdb False False {}) None 0)) =
   Inr (sim_started\<lparr>calls := [core_threads_create 0, core_threads_create 1, core_threads_create 2]\<rparr>)"
  by (simp add: CpuCoreManager_StartThreads_def CpuCoreManager_Initialize_def sim_world_def
      sim_started_def multi_core_def get_at_def deref_at_def upt_3 upt_4 emit_def Let_def
      numeral_2_eq_2 numeral_3_eq_3)

lemma join_all_range:
  assumes "n = length (core_threads w)" and "None \<notin> set (core_threads w)"
  shows "join_all [0..<n] w =
           Inr (w\<lparr>core_threads := replicate n None,
                  calls := calls w @
                    concat (map (\<lambda>i. [core_threads_join i, core_threads_reset i]) [0..<n])\<rparr>)"
proof -
  have "\<forall>i \<in> set [0..<n]. i < length (core_threads w) \<and> core_threads w ! i \<noteq> None"
    using assms by (auto simp: in_set_conv_nth)
  from join_all_ok [OF _ this] show ?thesis
    using assms(1) by (simp add: clear_at_all)
qed

lemma shutdown_cores_range:
  assumes "n = length (cores w)" and "None \<notin> set (cores w)"
  shows "shutdown_cores env [0..<n] w =
           Inr (w\<lparr>cores := replicate n None,
                  ext := fold (\<lambda>i. CpuShutdown env (the (cores w ! i))) [0..<n] (ext w),
                  calls := calls w @
                    concat (map (\<lambda>i. [cpu_core_Shutdown i, cpu_core_reset i]) [0..<n])\<rparr>)"
proof -
  have "\<forall>i \<in> set [0..<n]. i < length (cores w) \<and> cores w ! i \<noteq> None"
    using assms by (auto simp: in_set_conv_nth)
  from shutdown_cores_ok [OF _ this] show ?thesis
    using assms(1) by (simp add: clear_at_all)
qed

text \<open>
  Claim C6. In multi-core mode \<^verbatim>\<open>CpuCoreManager::GetCurrentCore\<close> returns the \<open>Cpu\<close>
  that \<open>thread_to_cpu\<close> holds for the calling host thread, and fails its assertion
  when the thread has no entry (or a null one). In single-core mode it returns
  \<open>cores[active_core]\<close>, as \<^verbatim>\<open>CpuManager::GetCurrentCoreManager\<close> always does with
  \<open>core_managers[active_core]\<close>.
\<close>

theorem C6_current_core_lookup:
  "(use_multi_core settings \<and> thread_to_cpu w this_thread = Some (Some cpu) \<longrightarrow>
      CpuCoreManager_GetCurrentCore settings this_thread w = Inr cpu)
   \<and> (use_multi_core settings \<and> thread_to_cpu w this_thread = None \<longrightarrow>
      CpuCoreManager_GetCurrentCore settings this_thread w = Inl AssertionFailed)
   \<and> (use_multi_core settings \<and> thread_to_cpu w this_thread = Some None \<longrightarrow>
      CpuCoreManager_GetCurrentCore settings this_thread w = Inl AssertionFailed)
   \<and> (\<not> use_multi_core settings \<and> active_core w < length (cores w)
        \<and> cores w ! active_core w = Some cpu \<longrightarrow>
      CpuCoreManager_GetCurrentCore settings this_thread w = Inr cpu)
   \<and> (active_core w < length (core_managers w)
        \<and> core_managers w ! active_core w = Some cpu \<longrightarrow>
      CpuManager_GetCurrentCoreManager w = Inr cpu)"
  by (simp add: CpuCoreManager_GetCurrentCore_def CpuManager_GetCurrentCoreManager_def deref_at_def)

theorem C6_witness:
  "use_multi_core multi_core
   \<and> thread_to_cpu sim_started 102 = Some (Some 2)
   \<and> CpuCoreManager_GetCurrentCore multi_core 102 sim_started = Inr 2
   \<and> thread_to_cpu sim_started 104 = None
   \<and> CpuCoreManager_GetCurrentCore multi_core 104 sim_started = Inl AssertionFailed
   \<and> thread_to_cpu (sim_started\<lparr>thread_to_cpu := [100 \<mapsto> None]\<rparr>) 100 = Some None
   \<and> CpuCoreManager_GetCurrentCore multi_core 100 (sim_started\<lparr>thread_to_cpu := [100 \<mapsto> None]\<rparr>)
       = Inl AssertionFailed
   \<and> \<not> use_multi_core single_core
   \<and> active_core (sim_started\<lparr>active_core := 3\<rparr>) < length (cores (sim_started\<lparr>active_core := 3\<rparr>))
   \<and> cores (sim_started\<lparr>active_core := 3\<rparr>) ! active_core (sim_started\<lparr>active_core := 3\<rparr>) = Some 3
   \<and> CpuCoreManager_GetCurrentCore single_core 102 (sim_started\<lparr>active_core := 3\<rparr>) = Inr 3
   \<and> CpuManager_GetCurrentCoreManager (sim_started\<lparr>active_core := 3\<rparr>) = Inr 3"
proof -
  have 1: "use_multi_core multi_core \<and> thread_to_cpu sim_started 102 = Some (Some 2)"
    by (simp add: multi_core_def sim_started_def)
  have 2: "use_multi_core multi_core \<and> thread_to_cpu sim_started 104 = None"
    by (simp add: multi_core_def sim_started_def)
  have 3: "use_multi_core multi_core
           \<and> thread_to_cpu (sim_started\<lparr>thread_to_cpu := [100 \<mapsto> None]\<rparr>) 100 = Some None"
    by (simp add: multi_core_def)
  have 4: "\<not> use_multi_core single_core
           \<and> active_core (sim_started\<lparr>active_core := 3\<rparr>) < length (cores (sim_started\<lparr>active_core := 3\<rparr>))
           \<and> cores (sim_started\<lparr>active_core := 3\<rparr>) ! active_core (sim_started\<lparr>active_core := 3\<rparr>) = Some 3"
    by (simp add: single_core_def sim_started_def sim_world_def)
  have 5: "active_core (sim_started\<lparr>active_core := 3\<rparr>) < length (core_managers (sim_started\<lparr>active_core := 3\<rparr>))
           \<and> core_managers (sim_started\<lparr>active_core := 3\<rparr>) ! active_core (sim_started\<lparr>active_core := 3\<rparr>) = Some 3"
    by (simp add: sim_started_def sim_world_def)
  from C6_current_core_lookup [of multi_core sim_started 102 2] 1
       C6_current_core_lookup [of multi_core sim_started 104] 2
       C6_current_core_lookup [of multi_core "sim_started\<lparr>thread_to_cpu := [100 \<mapsto> None]\<rparr>" 100] 3
       C6_current_core_lookup [of single_core "sim_started\<lparr>active_core := 3\<rparr>" 102 3] 4 5
  show ?thesis
    by simp
qed

text \<open>
  Claim C7. On a manager that was initialised (a barrier, four cores, three helper
  threads when multi-core mode is on), \<^verbatim>\<open>CpuCoreManager::Shutdown\<close> notifies the
  barrier, joins and resets the three helper threads in multi-core mode only, clears
  \<open>thread_to_cpu\<close>, shuts down and resets the four cores, resets the exclusive monitor
  and resets the barrier, in this order.
\<close>

theorem C7_shutdown_order:
  assumes "barrier w \<noteq> None"
    and "length (core_threads w) = NUM_CPU_CORES - 1"
    and "use_multi_core settings \<Longrightarrow> None \<notin> set (core_threads w)"
    and "length (cores w) = NUM_CPU_CORES"
    and "None \<notin> set (cores w)"
  shows "\<exists>w'. CpuCoreManager_Shutdown env settings w = Inr w'
           \<and> new_calls w w' =
               [barrier_NotifyEnd] @
               (if use_multi_core settings
                then [core_threads_join 0, core_threads_reset 0,
                      core_threads_join 1, core_threads_reset 1,
                      core_threads_join 2, core_threads_reset 2]
                else []) @
               [thread_to_cpu_clear,
                cpu_core_Shutdown 0, cpu_core_reset 0, cpu_core_Shutdown 1, cpu_core_reset 1,
                cpu_core_Shutdown 2, cpu_core_reset 2, cpu_core_Shutdown 3, cpu_core_reset 3,
                exclusive_monitor_reset, barrier_reset]
           \<and> thread_to_cpu w' = Map.empty
           \<and> cores w' = replicate NUM_CPU_CORES None
           \<and> exclusive_monitor w' = None
           \<and> barrier w' = None"
proof -
  from assms(1) obtain latch where latch: "barrier w = Some latch"
    by auto
  have three: "length (core_threads w) = 3" and four: "length (cores w) = 4"
    using assms(2,4) by (simp_all add: NUM_CPU_CORES_def)
  show ?thesis
  proof (cases "use_multi_core settings")
    case True
    with assms(3) have "None \<notin> set (core_threads w)" by simp
    with latch True assms(5) show ?thesis
      apply (simp add: CpuCoreManager_Shutdown_def Let_def emit_def new_calls_def
          join_all_range shutdown_cores_range)
      apply (simp add: three four NUM_CPU_CORES_def upt_3 upt_4)
      done
  next
    case False
    with latch assms(5) show ?thesis
      apply (simp add: CpuCoreManager_Shutdown_def Let_def emit_def new_calls_def
          shutdown_cores_range)
      apply (simp add: four NUM_CPU_CORES_def upt_4)
      done
  qed
qed

theorem C7_witness:
  "barrier sim_started \<noteq> None
   \<and> length (core_threads sim_started) = NUM_CPU_CORES - 1
   \<and> use_multi_core multi_core
   \<and> None \<notin> set (core_threads sim_started)
   \<and> length (cores sim_started) = NUM_CPU_CORES
   \<and> None \<notin> set (cores sim_started)
   \<and> (\<exists>w'. CpuCoreManager_Shutdown sim_env multi_core sim_started = Inr w'
        \<and> calls w' =
            [barrier_NotifyEnd,
             core_threads_join 0, core_threads_reset 0,
             core_threads_join 1, core_threads_reset 1,
             core_threads_join 2, core_threads_reset 2,
             thread_to_cpu_clear,
             cpu_core_Shutdown 0, cpu_core_reset 0, cpu_core_Shutdown 1, cpu_core_reset 1,
             cpu_core_Shutdown 2, cpu_core_reset 2, cpu_core_Shutdown 3, cpu_core_reset 3,
             exclusive_monitor_reset, barrier_reset])"
proof -
  have 1: "barrier sim_started \<noteq> None"
    and 2: "length (core_threads sim_started) = NUM_CPU_CORES - 1"
    and 3: "None \<notin> set (core_threads sim_started)"
    and 4: "length (cores sim_started) = NUM_CPU_CORES"
    and 5: "None \<notin> set (cores sim_started)"
    and 6: "use_multi_core multi_core"
    and 7: "calls sim_started = []"
    by (simp_all add: sim_started_def sim_world_def NUM_CPU_CORES_def multi_core_def)
  from C7_shutdown_order [OF 1 2 3 4 5, where settings = multi_core and env = sim_env] 6 7
  have "\<exists>w'. CpuCoreManager_Shutdown sim_env multi_core sim_started = Inr w'
        \<and> calls w' =
            [barrier_NotifyEnd,
             core_threads_join 0, core_threads_reset 0,
             core_threads_join 1, core_threads_reset 1,
             core_threads_join 2, core_threads_reset 2,
             thread_to_cpu_clear,
             cpu_core_Shutdown 0, cpu_core_reset 0, cpu_core_Shutdown 1, cpu_core_reset 1,
             cpu_core_Shutdown 2, cpu_core_reset 2, cpu_core_Shutdown 3, cpu_core_reset 3,
             exclusive_monitor_reset, barrier_reset]"
    by (auto simp: new_calls_def)
  with 1 2 3 4 5 6 show ?thesis
    by blast
qed


text \<open>
  The newer \<^verbatim>\<open>CpuManager::Shutdown\<close> only resets the four core managers: it has no
  barrier, helper thread, map or monitor to shut down.
\<close>

lemma CpuManager_Shutdown_resets:
  assumes "length (core_managers w) = NUM_CPU_CORES"
  shows "new_calls w (CpuManager_Shutdown w) =
           [cpu_core_reset 0, cpu_core_reset 1, cpu_core_reset 2, cpu_core_reset 3]"
    and "core_managers (CpuManager_Shutdown w) = replicate NUM_CPU_CORES None"
proof -
  have four: "length (core_managers w) = 4"
    using assms by (simp add: NUM_CPU_CORES_def)
  show "new_calls w (CpuManager_Shutdown w) =
           [cpu_core_reset 0, cpu_core_reset 1, cpu_core_reset 2, cpu_core_reset 3]"
    by (simp add: CpuManager_Shutdown_def four upt_4 emit_def new_calls_def)
  have "core_managers (CpuManager_Shutdown w) =
          (core_managers w)[0 := None, 1 := None, 2 := None, 3 := None]"
    by (simp add: CpuManager_Shutdown_def four upt_4 emit_def)
  also have "\<dots> = replicate NUM_CPU_CORES None"
    using four
    by (intro nth_equalityI) (auto simp: NUM_CPU_CORES_def nth_list_update less_Suc_eq numeral_eq_Suc)
  finally show "core_managers (CpuManager_Shutdown w) = replicate NUM_CPU_CORES None" .
qed

section \<open>Properties of the manager's run loop\<close>

lemma initialised_CpuManager_Initialize:
  "length (core_managers w) = NUM_CPU_CORES \<Longrightarrow> initialised (CpuManager_Initialize w)"
  by (simp add: initialised_def CpuManager_Initialize_def)

lemma core_managers_Reschedule [simp]:
  "core_managers (Reschedule env c w) = core_managers w"
  by (simp add: Reschedule_def call_ext_def emit_def Let_def)

lemma core_managers_CoreManager_RunLoop [simp]:
  "core_managers (CoreManager_RunLoop env c tight w) = core_managers w"
  by (simp add: CoreManager_RunLoop_def PrepareReschedule_def call_ext_def call_engine_def
      call_gdb_def emit_def Let_def split_beta split: option.split)

lemma RunLoop_calls_ex:
  "\<exists>xs. calls (CoreManager_RunLoop env c tight w) = calls w @ xs \<and> filter manager_call xs = []"
proof (cases "GetCurrentThread env (ext (Reschedule env c w))")
  case None
  from RunLoop_idle [OF this] show ?thesis
    by (simp add: Reschedule_calls_def)
next
  case (Some t)
  show ?thesis
  proof (cases "GetCpuHaltFlag (gdb w)")
    case True
    from RunLoop_halted(1) [OF Some True] show ?thesis
      by (simp add: Reschedule_calls_def)
  next
    case False
    show ?thesis
    proof (cases "GetThreadStepFlag (gdb w) t")
      case True
      from RunLoop_step(1) [OF Some False True] show ?thesis
        by (simp add: Reschedule_calls_def)
    next
      case nostep: False
      from RunLoop_run [OF Some False nostep] show ?thesis
        by (simp add: Reschedule_calls_def)
    qed
  qed
qed

lemma connected_CoreManager_RunLoop:
  assumes "stays_connected env b" and "connected (gdb w) = b"
  shows "connected (gdb (CoreManager_RunLoop env c tight w)) = b"
proof -
  have eng: "connected g = b \<Longrightarrow>
      connected (fst (Run env c (g, x))) = b \<and> connected (fst (Step env c (g, x))) = b \<and>
      connected (fst (Stop env c (g, x))) = b" for g x
    using assms(1) by (simp add: stays_connected_def)
  have brk: "connected (Break False g) = connected g" for g
    by (simp add: Break_def)
  show ?thesis
    using assms(2)
    by (simp add: CoreManager_RunLoop_def PrepareReschedule_def Let_def world_simps eng brk
        split: option.split)
qed

lemma for_body_trace:
  assumes "initialised w" and "active_core w < NUM_CPU_CORES"
  shows "\<exists>p w' xs. for_body env tight k w = Inr (k \<or> snd p, w')
           \<and> calls w' = calls w @ xs
           \<and> filter manager_call xs = slot_calls tight (active_core w) p
           \<and> core_managers w' = core_managers w \<and> active_core w' = active_core w
           \<and> (\<forall>b. stays_connected env b \<longrightarrow> connected (gdb w) = b \<longrightarrow> connected (gdb w') = b)"
proof -
  let ?a = "active_core w"
  let ?w1 = "emit (core_timing_CanCurrentContextRun (CanCurrentContextRun env (SwitchContext env ?a (ext w))))
              (call_ext (core_timing_SwitchContext ?a) (SwitchContext env ?a) w)"
  have deref: "deref_at (core_managers ?w1) (active_core ?w1) = Inr ?a"
    using assms by (simp add: initialised_def deref_at_def emit_def call_ext_def)
  show ?thesis
  proof (cases "CanCurrentContextRun env (SwitchContext env ?a (ext w))")
    case False
    let ?p = "(False, CanCurrentContextRun env (ext ?w1))"
    have "for_body env tight k w = Inr (k \<or> snd ?p, emit (core_timing_CanCurrentContextRun (snd ?p)) ?w1)"
      using False by (simp add: for_body_def Let_def world_simps)
    moreover have "calls (emit (core_timing_CanCurrentContextRun (snd ?p)) ?w1) =
        calls w @ slot_calls tight ?a ?p"
      using False by (simp add: slot_calls_def world_simps)
    moreover have "filter manager_call (slot_calls tight ?a ?p) = slot_calls tight ?a ?p"
      by (simp add: slot_calls_def)
    ultimately show ?thesis
      by (intro exI [of _ ?p] exI [of _ "emit (core_timing_CanCurrentContextRun (snd ?p)) ?w1"]
          exI [of _ "slot_calls tight ?a ?p"])
        (simp add: emit_def call_ext_def)
  next
    case True
    let ?w2 = "CoreManager_RunLoop env ?a tight (emit (core_managers_RunLoop ?a tight) ?w1)"
    let ?p = "(True, CanCurrentContextRun env (ext ?w2))"
    let ?w3 = "emit (core_timing_CanCurrentContextRun (snd ?p)) ?w2"
    from RunLoop_calls_ex [of env ?a tight "emit (core_managers_RunLoop ?a tight) ?w1"]
    obtain ys where ys: "calls ?w2 = calls (emit (core_managers_RunLoop ?a tight) ?w1) @ ys"
      and nomgr: "filter manager_call ys = []"
      by blast
    have body: "for_body env tight k w = Inr (k \<or> snd ?p, ?w3)"
      using True deref by (simp add: for_body_def Let_def world_simps emit_def call_ext_def)
    have calls3: "calls ?w3 = calls w @
        ([core_timing_SwitchContext ?a, core_timing_CanCurrentContextRun True,
          core_managers_RunLoop ?a tight] @ ys @ [core_timing_CanCurrentContextRun (snd ?p)])"
      using True ys by (simp add: world_simps)
    have filt: "filter manager_call
        ([core_timing_SwitchContext ?a, core_timing_CanCurrentContextRun True,
          core_managers_RunLoop ?a tight] @ ys @ [core_timing_CanCurrentContextRun (snd ?p)]) =
        slot_calls tight ?a ?p"
      using nomgr by (simp add: slot_calls_def)
    have conn: "connected (gdb ?w3) = b" if "stays_connected env b" "connected (gdb w) = b" for b
      using connected_CoreManager_RunLoop [OF that(1), of "emit (core_managers_RunLoop ?a tight) ?w1"] that(2)
      by (simp add: world_simps)
    have fields: "core_managers ?w3 = core_managers w \<and> active_core ?w3 = active_core w"
      by (simp add: emit_def call_ext_def)
    from body calls3 filt conn fields show ?thesis
      by blast
  qed
qed

lemma rotation_calls_Nil [simp]: "rotation_calls tight NUM_CPU_CORES ps = []"
  by (simp add: rotation_calls_def)

lemma rotation_calls_Cons:
  "a < NUM_CPU_CORES \<Longrightarrow>
   rotation_calls tight a (p # ps) = slot_calls tight a p @ rotation_calls tight (Suc a) ps"
  by (simp add: rotation_calls_def upt_conv_Cons)

lemma for_cores_trace:
  assumes "initialised w" and "active_core w \<le> NUM_CPU_CORES"
  shows "\<exists>ps w' xs. for_cores env tight k w = Inr (k \<or> (\<exists>p \<in> set ps. snd p), w')
           \<and> length ps = NUM_CPU_CORES - active_core w
           \<and> calls w' = calls w @ xs
           \<and> filter manager_call xs = rotation_calls tight (active_core w) ps
           \<and> core_managers w' = core_managers w \<and> active_core w' = NUM_CPU_CORES
           \<and> (\<forall>b. stays_connected env b \<longrightarrow> connected (gdb w) = b \<longrightarrow> connected (gdb w') = b)"
  using assms
proof (induction env tight k w rule: for_cores.induct)
  case (1 env tight k w)
  show ?case
  proof (cases "active_core w < NUM_CPU_CORES")
    case False
    with "1.prems" have "active_core w = NUM_CPU_CORES" by simp
    then have "for_cores env tight k w = Inr (k \<or> (\<exists>p \<in> set []. snd p), w)
           \<and> length [] = NUM_CPU_CORES - active_core w
           \<and> calls w = calls w @ []
           \<and> filter manager_call [] = rotation_calls tight (active_core w) []
           \<and> core_managers w = core_managers w \<and> active_core w = NUM_CPU_CORES
           \<and> (\<forall>b. stays_connected env b \<longrightarrow> connected (gdb w) = b \<longrightarrow> connected (gdb w) = b)"
      by (simp add: for_cores.simps)
    then show ?thesis by blast
  next
    case True
    from for_body_trace [OF "1.prems"(1) True, of env tight k]
    obtain p w1 xs1 where body: "for_body env tight k w = Inr (k \<or> snd p, w1)"
      and calls1: "calls w1 = calls w @ xs1"
      and filt1: "filter manager_call xs1 = slot_calls tight (active_core w) p"
      and cm1: "core_managers w1 = core_managers w" and ac1: "active_core w1 = active_core w"
      and conn1: "\<And>b. stays_connected env b \<Longrightarrow> connected (gdb w) = b \<Longrightarrow> connected (gdb w1) = b"
      by blast
    let ?w2 = "w1\<lparr>active_core := active_core w1 + 1\<rparr>"
    have init2: "initialised ?w2"
      using "1.prems"(1) cm1 by (simp add: initialised_def)
    have le2: "active_core ?w2 \<le> NUM_CPU_CORES"
      using True ac1 by simp
    from "1.IH" [OF True body refl init2 le2]
    obtain ps w' xs where rec: "for_cores env tight (k \<or> snd p) ?w2 =
             Inr ((k \<or> snd p) \<or> (\<exists>q \<in> set ps. snd q), w')"
      and len: "length ps = NUM_CPU_CORES - active_core ?w2"
      and calls': "calls w' = calls ?w2 @ xs"
      and filt': "filter manager_call xs = rotation_calls tight (active_core ?w2) ps"
      and cm': "core_managers w' = core_managers ?w2" and ac': "active_core w' = NUM_CPU_CORES"
      and conn': "\<And>b. stays_connected env b \<Longrightarrow> connected (gdb ?w2) = b \<Longrightarrow> connected (gdb w') = b"
      by blast
    have "for_cores env tight k w = Inr (k \<or> (\<exists>q \<in> set (p # ps). snd q), w')"
      using True body rec by (subst for_cores.simps) auto
    moreover have "length (p # ps) = NUM_CPU_CORES - active_core w"
      using len True ac1 by simp
    moreover have "calls w' = calls w @ (xs1 @ xs)"
      using calls' calls1 by simp
    moreover have "filter manager_call (xs1 @ xs) = rotation_calls tight (active_core w) (p # ps)"
      using filt1 filt' True ac1 by (simp add: rotation_calls_Cons)
    moreover have "core_managers w' = core_managers w"
      using cm' cm1 by simp
    moreover have "\<forall>b. stays_connected env b \<longrightarrow> connected (gdb w) = b \<longrightarrow> connected (gdb w') = b"
      using conn1 conn' by simp
    ultimately show ?thesis
      using ac' by blast
  qed
qed

lemma is_IsConnected_manager_call: "is_IsConnected c \<Longrightarrow> manager_call c"
  by (cases c) simp_all

lemma filter_IsConnected_via_manager:
  "filter is_IsConnected xs = filter is_IsConnected (filter manager_call xs)"
  by (induction xs) (auto dest: is_IsConnected_manager_call)

lemma IsConnected_slot_calls [simp]: "filter is_IsConnected (slot_calls tight c p) = []"
  by (simp add: slot_calls_def)

lemma IsConnected_rotation_calls [simp]: "filter is_IsConnected (rotation_calls tight a ps) = []"
proof -
  have "filter is_IsConnected (concat (map2 (slot_calls tight) cs ps)) = []" for cs
    by (induction cs ps rule: list_induct2') simp_all
  then show ?thesis by (simp add: rotation_calls_def)
qed

lemma rotation_trace:
  assumes "initialised w"
  shows "\<exists>ps w1 xs. for_cores env tight False (w\<lparr>active_core := 0\<rparr>) = Inr (\<exists>p \<in> set ps. snd p, w1)
           \<and> length ps = NUM_CPU_CORES
           \<and> calls w1 = calls w @ xs
           \<and> filter manager_call xs = rotation_calls tight 0 ps
           \<and> initialised w1
           \<and> (\<forall>b. stays_connected env b \<longrightarrow> connected (gdb w) = b \<longrightarrow> connected (gdb w1) = b)"
proof -
  have "initialised (w\<lparr>active_core := 0\<rparr>)" and "active_core (w\<lparr>active_core := 0\<rparr>) \<le> NUM_CPU_CORES"
    using assms by (simp_all add: initialised_def)
  from for_cores_trace [OF this, of env tight False]
  obtain ps w1 xs where "for_cores env tight False (w\<lparr>active_core := 0\<rparr>) = Inr (\<exists>p \<in> set ps. snd p, w1)"
    and "length ps = NUM_CPU_CORES" and "calls w1 = calls w @ xs"
    and "filter manager_call xs = rotation_calls tight 0 ps"
    and "core_managers w1 = core_managers w"
    and "\<forall>b. stays_connected env b \<longrightarrow> connected (gdb w) = b \<longrightarrow> connected (gdb w1) = b"
    by auto
  moreover from this assms have "initialised w1"
    by (simp add: initialised_def)
  ultimately show ?thesis
    by blast
qed

lemma do_while_step:
  assumes "for_cores env tight False (w\<lparr>active_core := 0\<rparr>) = Inr (keep, w1)"
  shows "do_while env tight max_loops num_loops w =
           (if keep \<and> (if IsConnected (gdb w1) then num_loops + 1 else num_loops) < max_loops
            then do_while env tight max_loops
                   (if IsConnected (gdb w1) then num_loops + 1 else num_loops)
                   (emit (GDBStub_IsConnected (IsConnected (gdb w1))) w1)
            else Some (Inr (emit (GDBStub_IsConnected (IsConnected (gdb w1))) w1)))"
  using assms by (subst do_while.simps) (simp add: Let_def emit_def)

lemma do_while_connected:
  assumes "stays_connected env True"
  shows "initialised w \<Longrightarrow> connected (gdb w) \<Longrightarrow>
         \<exists>w' xs. do_while env tight max_loops n w = Some (Inr w') \<and> calls w' = calls w @ xs
           \<and> int (loop_iterations xs) \<le> max 1 (max_loops - n)"
proof (induction "nat (max_loops - n)" arbitrary: n w rule: less_induct)
  case less
  from rotation_trace [OF less.prems(1), of env tight]
  obtain ps w1 xs1 where rot: "for_cores env tight False (w\<lparr>active_core := 0\<rparr>) = Inr (\<exists>p \<in> set ps. snd p, w1)"
    and calls1: "calls w1 = calls w @ xs1"
    and filt1: "filter manager_call xs1 = rotation_calls tight 0 ps"
    and init1: "initialised w1"
    and conn1: "\<And>b. stays_connected env b \<Longrightarrow> connected (gdb w) = b \<Longrightarrow> connected (gdb w1) = b"
    by blast
  have c1: "connected (gdb w1)"
    using conn1 [OF assms] less.prems(2) by simp
  have no_poll: "filter is_IsConnected xs1 = []"
    using filt1 filter_IsConnected_via_manager [of xs1] by simp
  let ?w2 = "emit (GDBStub_IsConnected True) w1"
  have step: "do_while env tight max_loops n w =
      (if (\<exists>p \<in> set ps. snd p) \<and> n + 1 < max_loops
       then do_while env tight max_loops (n + 1) ?w2 else Some (Inr ?w2))"
    using do_while_step [OF rot, of max_loops n] c1 by (simp add: IsConnected_def)
  show ?case
  proof (cases "(\<exists>p \<in> set ps. snd p) \<and> n + 1 < max_loops")
    case False
    have "do_while env tight max_loops n w = Some (Inr ?w2)"
      using step False by simp
    moreover have "calls ?w2 = calls w @ (xs1 @ [GDBStub_IsConnected True])"
      using calls1 by (simp add: emit_def)
    moreover have "int (loop_iterations (xs1 @ [GDBStub_IsConnected True])) \<le> max 1 (max_loops - n)"
      using no_poll by (simp add: loop_iterations_def)
    ultimately show ?thesis by blast
  next
    case True
    then have smaller: "nat (max_loops - (n + 1)) < nat (max_loops - n)"
      by simp
    have "initialised ?w2" and "connected (gdb ?w2)"
      using init1 c1 by (simp_all add: initialised_def emit_def)
    from less.hyps [OF smaller this]
    obtain w' xs where rec: "do_while env tight max_loops (n + 1) ?w2 = Some (Inr w')"
      and calls': "calls w' = calls ?w2 @ xs"
      and bound: "int (loop_iterations xs) \<le> max 1 (max_loops - (n + 1))"
      by blast
    have "do_while env tight max_loops n w = Some (Inr w')"
      using step True rec by simp
    moreover have "calls w' = calls w @ (xs1 @ [GDBStub_IsConnected True] @ xs)"
      using calls' calls1 by (simp add: emit_def)
    moreover have "int (loop_iterations (xs1 @ [GDBStub_IsConnected True] @ xs)) \<le> max 1 (max_loops - n)"
      using no_poll bound True by (simp add: loop_iterations_def)
    ultimately show ?thesis by blast
  qed
qed

lemma rotation_calls_four:
  "rotation_calls tight 0 [p0, p1, p2, p3] =
     slot_calls tight 0 p0 @ slot_calls tight 1 p1 @ slot_calls tight 2 p2 @ slot_calls tight 3 p3"
  by (simp add: rotation_calls_def NUM_CPU_CORES_def upt_4)

lemma RunLoop_prologue:
  assumes "initialised w"
  shows "\<exists>w0. CpuManager_RunLoop env settings tight w =
                 do_while env tight (gdbstub_loops settings) 0 w0
           \<and> calls w0 = calls w @
               [GDBStub_IsServerEnabled (IsServerEnabled (gdb w))] @
               (if IsServerEnabled (gdb w) then [GDBStub_HandlePacket] else []) @
               [core_timing_ResetRun]
           \<and> initialised w0
           \<and> (\<forall>b. stays_connected env b \<longrightarrow> connected (gdb w) = b \<longrightarrow> connected (gdb w0) = b)"
proof -
  let ?en = "IsServerEnabled (gdb w)"
  let ?w1 = "emit (GDBStub_IsServerEnabled ?en) w"
  let ?w2 = "if ?en then call_engine GDBStub_HandlePacket (HandlePacket env) ?w1 else ?w1"
  let ?w0 = "call_ext core_timing_ResetRun (ResetRun env) ?w2"
  have "CpuManager_RunLoop env settings tight w = do_while env tight (gdbstub_loops settings) 0 ?w0"
    by (simp add: CpuManager_RunLoop_def Let_def)
  moreover have "calls ?w0 = calls w @
               [GDBStub_IsServerEnabled ?en] @
               (if ?en then [GDBStub_HandlePacket] else []) @ [core_timing_ResetRun]"
    by (simp add: world_simps)
  moreover have "initialised ?w0"
    using assms by (simp add: initialised_def call_ext_def call_engine_def emit_def split_beta)
  moreover have "connected (gdb ?w0) = b" if "stays_connected env b" "connected (gdb w) = b" for b
    using that by (simp add: world_simps stays_connected_def)
  ultimately show ?thesis
    by blast
qed

text \<open>
  Claim C4, as amended. On an initialised manager, \<^verbatim>\<open>CpuManager::RunLoop\<close> asks
  whether the server is enabled, serves a packet if so, resets the timing and enters its
  loop with the counter at 0. Every iteration of the loop makes the manager's calls of
  one rotation: for the cores 0, 1, 2, 3 in this order, \<open>SwitchContext\<close> of the core,
  the query \<open>CanCurrentContextRun\<close>, the dispatch of that core's \<open>RunLoop\<close> exactly
  when the query answered true, and the query again. The loop then polls
  \<open>IsConnected\<close>, counts the iteration if connected, and repeats exactly when some
  second query of the rotation answered true and the counter is below the bound.
\<close>

theorem C4_rotation_in_core_order:
  assumes "initialised w"
  shows "(\<exists>w0. CpuManager_RunLoop env settings tight_loop w =
                  do_while env tight_loop (gdbstub_loops settings) 0 w0
            \<and> new_calls w w0 =
                [GDBStub_IsServerEnabled (IsServerEnabled (gdb w))] @
                (if IsServerEnabled (gdb w) then [GDBStub_HandlePacket] else []) @
                [core_timing_ResetRun]
            \<and> initialised w0)
       \<and> (\<exists>ps w1. for_cores env tight_loop False (w\<lparr>active_core := 0\<rparr>) =
                     Inr (\<exists>p \<in> set ps. snd p, w1)
            \<and> length ps = NUM_CPU_CORES
            \<and> filter manager_call (new_calls w w1) = rotation_calls tight_loop 0 ps
            \<and> initialised w1
            \<and> do_while env tight_loop max_loops num_loops w =
                (if (\<exists>p \<in> set ps. snd p)
                    \<and> (if IsConnected (gdb w1) then num_loops + 1 else num_loops) < max_loops
                 then do_while env tight_loop max_loops
                        (if IsConnected (gdb w1) then num_loops + 1 else num_loops)
                        (emit (GDBStub_IsConnected (IsConnected (gdb w1))) w1)
                 else Some (Inr (emit (GDBStub_IsConnected (IsConnected (gdb w1))) w1))))"
proof
  from RunLoop_prologue [OF assms, of env settings tight_loop]
  show "\<exists>w0. CpuManager_RunLoop env settings tight_loop w =
                  do_while env tight_loop (gdbstub_loops settings) 0 w0
            \<and> new_calls w w0 =
                [GDBStub_IsServerEnabled (IsServerEnabled (gdb w))] @
                (if IsServerEnabled (gdb w) then [GDBStub_HandlePacket] else []) @
                [core_timing_ResetRun]
            \<and> initialised w0"
    by (auto simp: new_calls_def)
next
  from rotation_trace [OF assms, of env tight_loop]
  obtain ps w1 xs where rot: "for_cores env tight_loop False (w\<lparr>active_core := 0\<rparr>) = Inr (\<exists>p \<in> set ps. snd p, w1)"
    and len: "length ps = NUM_CPU_CORES"
    and calls1: "calls w1 = calls w @ xs"
    and filt1: "filter manager_call xs = rotation_calls tight_loop 0 ps"
    and init1: "initialised w1"
    by blast
  have "filter manager_call (new_calls w w1) = rotation_calls tight_loop 0 ps"
    using calls1 filt1 by (simp add: new_calls_def)
  with rot len init1 do_while_step [OF rot, of max_loops num_loops]
  show "\<exists>ps w1. for_cores env tight_loop False (w\<lparr>active_core := 0\<rparr>) =
                     Inr (\<exists>p \<in> set ps. snd p, w1)
            \<and> length ps = NUM_CPU_CORES
            \<and> filter manager_call (new_calls w w1) = rotation_calls tight_loop 0 ps
            \<and> initialised w1
            \<and> do_while env tight_loop max_loops num_loops w =
                (if (\<exists>p \<in> set ps. snd p)
                    \<and> (if IsConnected (gdb w1) then num_loops + 1 else num_loops) < max_loops
                 then do_while env tight_loop max_loops
                        (if IsConnected (gdb w1) then num_loops + 1 else num_loops)
                        (emit (GDBStub_IsConnected (IsConnected (gdb w1))) w1)
                 else Some (Inr (emit (GDBStub_IsConnected (IsConnected (gdb w1))) w1)))"
    by blast
qed

lemmas sim_eval =
  for_cores.simps for_body_def CoreManager_RunLoop_def Reschedule_def PrepareReschedule_def
  call_ext_def call_engine_def call_gdb_def emit_def Let_def
  sim_env_def sim_world_def sim_gdb_def loops_def
  IsServerEnabled_def IsConnected_def GetCpuHaltFlag_def GetThreadStepFlag_def
  deref_at_def NUM_CPU_CORES_def slot_calls_def calls_of_def loop_iterations_def

text \<open>
  Against claim C4 as it is stated: with the debugger connected and
  \<open>gdbstub_loops = 1\<close>, every query of the first rotation answers true, and the run
  returns after that one rotation.
\<close>

theorem C4_counterexample:
  "gdbstub_loops (loops 1) = 1
   \<and> map_option (filter manager_call)
       (calls_of (CpuManager_RunLoop sim_env (loops 1) True
          (sim_world (sim_gdb True False {}) None 100))) =
     Some ([GDBStub_IsServerEnabled True, GDBStub_HandlePacket, core_timing_ResetRun] @
           slot_calls True 0 (True, True) @ slot_calls True 1 (True, True) @
           slot_calls True 2 (True, True) @ slot_calls True 3 (True, True) @
           [GDBStub_IsConnected True])"
proof
  show "gdbstub_loops (loops 1) = 1"
    by (simp add: loops_def)
  show "map_option (filter manager_call)
       (calls_of (CpuManager_RunLoop sim_env (loops 1) True
          (sim_world (sim_gdb True False {}) None 100))) =
     Some ([GDBStub_IsServerEnabled True, GDBStub_HandlePacket, core_timing_ResetRun] @
           slot_calls True 0 (True, True) @ slot_calls True 1 (True, True) @
           slot_calls True 2 (True, True) @ slot_calls True 3 (True, True) @
           [GDBStub_IsConnected True])"
    unfolding CpuManager_RunLoop_def Let_def
    by (subst do_while.simps) (simp add: sim_eval)
qed

text \<open>
  Against claim C5 as it is stated: with \<open>gdbstub_loops = 0\<close> a connected run makes
  one iteration, more than the bound; and a disconnected run returns after one rotation
  in which every core could run.
\<close>

theorem C5_counterexample:
  "gdbstub_loops (loops 0) = 0
   \<and> map_option loop_iterations
       (calls_of (CpuManager_RunLoop sim_env (loops 0) True
          (sim_world (sim_gdb True False {}) None 0))) = Some 1
   \<and> map_option (filter manager_call)
       (calls_of (CpuManager_RunLoop sim_env (loops 0) True
          (sim_world (sim_gdb False False {}) None 100))) =
     Some ([GDBStub_IsServerEnabled True, GDBStub_HandlePacket, core_timing_ResetRun] @
           slot_calls True 0 (True, True) @ slot_calls True 1 (True, True) @
           slot_calls True 2 (True, True) @ slot_calls True 3 (True, True) @
           [GDBStub_IsConnected False])"
proof (intro conjI)
  show "gdbstub_loops (loops 0) = 0"
    by (simp add: loops_def)
  show "map_option loop_iterations
       (calls_of (CpuManager_RunLoop sim_env (loops 0) True
          (sim_world (sim_gdb True False {}) None 0))) = Some 1"
    unfolding CpuManager_RunLoop_def Let_def
    by (subst do_while.simps) (simp add: sim_eval)
  show "map_option (filter manager_call)
       (calls_of (CpuManager_RunLoop sim_env (loops 0) True
          (sim_world (sim_gdb False False {}) None 100))) =
     Some ([GDBStub_IsServerEnabled True, GDBStub_HandlePacket, core_timing_ResetRun] @
           slot_calls True 0 (True, True) @ slot_calls True 1 (True, True) @
           slot_calls True 2 (True, True) @ slot_calls True 3 (True, True) @
           [GDBStub_IsConnected False])"
    unfolding CpuManager_RunLoop_def Let_def
    by (subst do_while.simps) (simp add: sim_eval)
qed


theorem C4_witness:
  "initialised (sim_world (sim_gdb True False {}) None 1)
   \<and> (\<exists>w0. CpuManager_RunLoop sim_env (loops 5) True (sim_world (sim_gdb True False {}) None 1) =
              do_while sim_env True 5 0 w0
         \<and> calls w0 = [GDBStub_IsServerEnabled True, GDBStub_HandlePacket, core_timing_ResetRun])
   \<and> (\<exists>ps w1. for_cores sim_env True False
                  ((sim_world (sim_gdb True False {}) None 1)\<lparr>active_core := 0\<rparr>) =
                Inr (\<exists>p \<in> set ps. snd p, w1)
         \<and> length ps = NUM_CPU_CORES
         \<and> filter manager_call (calls w1) = rotation_calls True 0 ps)"
proof -
  let ?w = "sim_world (sim_gdb True False {}) None 1"
  have init: "initialised ?w"
    by (simp add: initialised_def sim_world_def NUM_CPU_CORES_def upt_4)
  have facts: "calls ?w = []" "IsServerEnabled (gdb ?w)" "gdbstub_loops (loops 5) = 5"
    by (simp_all add: sim_world_def sim_gdb_def IsServerEnabled_def loops_def)
  from C4_rotation_in_core_order [OF init, where env = sim_env and settings = "loops 5"
      and tight_loop = True and max_loops = 5 and num_loops = 0]
  have "(\<exists>w0. CpuManager_RunLoop sim_env (loops 5) True ?w = do_while sim_env True 5 0 w0
         \<and> calls w0 = [GDBStub_IsServerEnabled True, GDBStub_HandlePacket, core_timing_ResetRun])
   \<and> (\<exists>ps w1. for_cores sim_env True False (?w\<lparr>active_core := 0\<rparr>) = Inr (\<exists>p \<in> set ps. snd p, w1)
         \<and> length ps = NUM_CPU_CORES
         \<and> filter manager_call (calls w1) = rotation_calls True 0 ps)"
    using facts by (simp add: new_calls_def) blast
  with init show ?thesis
    by blast
qed

lemma for_body_keeps_running:
  assumes "\<And>x. CanCurrentContextRun env x" and "for_body env tight k w = Inr (k', w')"
  shows "k'"
  using assms
  by (auto simp: for_body_def Let_def split: if_splits sum.splits)

lemma for_cores_keeps_running:
  "(\<And>x. CanCurrentContextRun env x) \<Longrightarrow> for_cores env tight k w = Inr (k', w') \<Longrightarrow>
   k \<or> active_core w < NUM_CPU_CORES \<Longrightarrow> k'"
proof (induction env tight k w rule: for_cores.induct)
  case (1 env tight k w)
  show ?case
  proof (cases "active_core w < NUM_CPU_CORES")
    case False
    with "1.prems" show ?thesis
      by (simp add: for_cores.simps)
  next
    case True
    with "1.prems"(2) obtain k1 w1 where body: "for_body env tight k w = Inr (k1, w1)"
      and rec: "for_cores env tight k1 (w1\<lparr>active_core := active_core w1 + 1\<rparr>) = Inr (k', w')"
      by (subst (asm) for_cores.simps) (auto split: sum.splits)
    from for_body_keeps_running [OF "1.prems"(1) body] have "k1" .
    with "1.IH" [OF True body refl "1.prems"(1) rec] show ?thesis
      by simp
  qed
qed

text \<open>
  The loop need not end: while the debugger is disconnected, the counter is below the
  bound and every context can always run, \<^verbatim>\<open>CpuManager::RunLoop\<close> never returns.
\<close>

lemma do_while_runs_on:
  assumes "do_while env tight max_loops n w = Some y"
  shows "\<not> ((\<forall>x. CanCurrentContextRun env x) \<and> stays_connected env False \<and>
            initialised w \<and> \<not> connected (gdb w) \<and> n < max_loops)"
proof (rule do_while.raw_induct
    [where P = "\<lambda>env tight max_loops n w y.
       \<not> ((\<forall>x. CanCurrentContextRun env x) \<and> stays_connected env False \<and>
            initialised w \<and> \<not> connected (gdb w) \<and> n < max_loops)", OF _ assms])
  fix loop :: "'a env \<Rightarrow> bool \<Rightarrow> int \<Rightarrow> int \<Rightarrow> 'a world \<Rightarrow> (error + 'a world) option"
  fix env tight max_loops n w y
  assume hyp: "\<And>tight max_loops n w b y. loop tight max_loops n w b = Some y \<Longrightarrow>
       \<not> ((\<forall>x. CanCurrentContextRun tight x) \<and> stays_connected tight False \<and>
            initialised b \<and> \<not> connected (gdb b) \<and> w < n)"
    and unfold: "(case for_cores env tight False (w\<lparr>active_core := 0\<rparr>) of
        Inl e \<Rightarrow> Some (Inl e)
      | Inr (keep_running, w) \<Rightarrow>
          (let conn = IsConnected (gdb w);
               w = emit (GDBStub_IsConnected conn) w;
               num_loops = (if conn then n + 1 else n)
           in if keep_running \<and> num_loops < max_loops
              then loop env tight max_loops num_loops w
              else Some (Inr w))) = Some y"
  show "\<not> ((\<forall>x. CanCurrentContextRun env x) \<and> stays_connected env False \<and>
            initialised w \<and> \<not> connected (gdb w) \<and> n < max_loops)"
  proof
    assume inv: "(\<forall>x. CanCurrentContextRun env x) \<and> stays_connected env False \<and>
            initialised w \<and> \<not> connected (gdb w) \<and> n < max_loops"
    from rotation_trace [of w env tight] inv
    obtain ps w1 xs where rot: "for_cores env tight False (w\<lparr>active_core := 0\<rparr>) = Inr (\<exists>p \<in> set ps. snd p, w1)"
      and len: "length ps = NUM_CPU_CORES"
      and calls1: "calls w1 = calls w @ xs"
      and filt1: "filter manager_call xs = rotation_calls tight 0 ps"
      and init1: "initialised w1"
      and conn1: "\<And>b. stays_connected env b \<Longrightarrow> connected (gdb w) = b \<Longrightarrow> connected (gdb w1) = b"
      by blast
    have keep: "\<exists>p \<in> set ps. snd p"
      using for_cores_keeps_running [OF _ rot] inv by (simp add: NUM_CPU_CORES_def)
    have off: "\<not> connected (gdb w1)"
      using conn1 [of False] inv by simp
    let ?w2 = "emit (GDBStub_IsConnected False) w1"
    from unfold rot keep off inv
    have "loop env tight max_loops n ?w2 = Some y"
      by (simp add: IsConnected_def Let_def)
    moreover have "initialised ?w2" and "\<not> connected (gdb ?w2)"
      using init1 off by (simp_all add: initialised_def emit_def)
    ultimately show False
      using hyp [of env tight max_loops n ?w2 y] inv by blast
  qed
qed

lemma RunLoop_runs_on:
  assumes "\<And>x. CanCurrentContextRun env x" and "stays_connected env False"
    and "initialised w" and "\<not> connected (gdb w)" and "1 \<le> gdbstub_loops settings"
  shows "CpuManager_RunLoop env settings tight w = None"
proof -
  from RunLoop_prologue [OF assms(3), of env settings tight]
  obtain w0 where run: "CpuManager_RunLoop env settings tight w =
                          do_while env tight (gdbstub_loops settings) 0 w0"
    and init0: "initialised w0"
    and conn0: "\<And>b. stays_connected env b \<Longrightarrow> connected (gdb w) = b \<Longrightarrow> connected (gdb w0) = b"
    by blast
  have off: "\<not> connected (gdb w0)"
    using conn0 [OF assms(2)] assms(4) by simp
  have "do_while env tight (gdbstub_loops settings) 0 w0 \<noteq> Some y" for y
    using do_while_runs_on [of env tight "gdbstub_loops settings" 0 w0 y] assms(1,2,5) init0 off
    by auto
  with run show ?thesis
    by (cases "CpuManager_RunLoop env settings tight w") auto
qed

text \<open>
  Claim C5, as amended. On an initialised manager: while the debugger stays connected,
  \<^verbatim>\<open>CpuManager::RunLoop\<close> returns, after at most \<open>max 1 gdbstub_loops\<close> iterations
  of its loop. While the debugger stays disconnected the counter keeps its value, and
  if that value is below the bound the loop repeats exactly when some core could run;
  so with a bound of at least 1 and contexts that can always run, a disconnected run
  never returns.
\<close>

theorem C5_loop_bound_when_connected:
  assumes "initialised w"
  shows "(stays_connected env True \<and> connected (gdb w) \<longrightarrow>
            (\<exists>w'. CpuManager_RunLoop env settings tight_loop w = Some (Inr w')
               \<and> int (loop_iterations (new_calls w w')) \<le> max 1 (gdbstub_loops settings)))
       \<and> (stays_connected env False \<and> \<not> connected (gdb w) \<and> num_loops < max_loops \<longrightarrow>
            (\<exists>keep_running w1.
               for_cores env tight_loop False (w\<lparr>active_core := 0\<rparr>) = Inr (keep_running, w1)
               \<and> \<not> connected (gdb w1) \<and> initialised w1
               \<and> do_while env tight_loop max_loops num_loops w =
                   (if keep_running
                    then do_while env tight_loop max_loops num_loops
                           (emit (GDBStub_IsConnected False) w1)
                    else Some (Inr (emit (GDBStub_IsConnected False) w1)))))
       \<and> ((\<forall>x. CanCurrentContextRun env x) \<and> stays_connected env False
            \<and> \<not> connected (gdb w) \<and> 1 \<le> gdbstub_loops settings \<longrightarrow>
            CpuManager_RunLoop env settings tight_loop w = None)"
proof (intro conjI impI)
  assume "stays_connected env True \<and> connected (gdb w)"
  then have stays: "stays_connected env True" and conn: "connected (gdb w)"
    by simp_all
  from RunLoop_prologue [OF assms, of env settings tight_loop]
  obtain w0 where run: "CpuManager_RunLoop env settings tight_loop w =
                          do_while env tight_loop (gdbstub_loops settings) 0 w0"
    and calls0: "calls w0 = calls w @
               [GDBStub_IsServerEnabled (IsServerEnabled (gdb w))] @
               (if IsServerEnabled (gdb w) then [GDBStub_HandlePacket] else []) @
               [core_timing_ResetRun]"
    and init0: "initialised w0"
    and conn0: "\<And>b. stays_connected env b \<Longrightarrow> connected (gdb w) = b \<Longrightarrow> connected (gdb w0) = b"
    by blast
  have "connected (gdb w0)"
    using conn0 [OF stays] conn by simp
  from do_while_connected [OF stays init0 this, of tight_loop "gdbstub_loops settings" 0]
  obtain w' xs where ret: "do_while env tight_loop (gdbstub_loops settings) 0 w0 = Some (Inr w')"
    and calls': "calls w' = calls w0 @ xs"
    and bound: "int (loop_iterations xs) \<le> max 1 (gdbstub_loops settings - 0)"
    by blast
  have "loop_iterations (new_calls w w') = loop_iterations xs"
    using calls' calls0 by (simp add: new_calls_def loop_iterations_def)
  with run ret bound
  show "\<exists>w'. CpuManager_RunLoop env settings tight_loop w = Some (Inr w')
               \<and> int (loop_iterations (new_calls w w')) \<le> max 1 (gdbstub_loops settings)"
    by simp
next
  assume "stays_connected env False \<and> \<not> connected (gdb w) \<and> num_loops < max_loops"
  then have stays: "stays_connected env False" and conn: "\<not> connected (gdb w)"
    and below: "num_loops < max_loops"
    by simp_all
  from rotation_trace [OF assms, of env tight_loop]
  obtain ps w1 xs where rot: "for_cores env tight_loop False (w\<lparr>active_core := 0\<rparr>) = Inr (\<exists>p \<in> set ps. snd p, w1)"
    and len: "length ps = NUM_CPU_CORES"
    and calls1: "calls w1 = calls w @ xs"
    and filt1: "filter manager_call xs = rotation_calls tight_loop 0 ps"
    and init1: "initialised w1"
    and conn1: "\<And>b. stays_connected env b \<Longrightarrow> connected (gdb w) = b \<Longrightarrow> connected (gdb w1) = b"
    by blast
  have off: "\<not> connected (gdb w1)"
    using conn1 [OF stays] conn by simp
  from do_while_step [OF rot, of max_loops num_loops] off below
  have "do_while env tight_loop max_loops num_loops w =
          (if (\<exists>p \<in> set ps. snd p)
           then do_while env tight_loop max_loops num_loops (emit (GDBStub_IsConnected False) w1)
           else Some (Inr (emit (GDBStub_IsConnected False) w1)))"
    by (simp add: IsConnected_def)
  with rot off init1
  show "\<exists>keep_running w1.
               for_cores env tight_loop False (w\<lparr>active_core := 0\<rparr>) = Inr (keep_running, w1)
               \<and> \<not> connected (gdb w1) \<and> initialised w1
               \<and> do_while env tight_loop max_loops num_loops w =
                   (if keep_running
                    then do_while env tight_loop max_loops num_loops
                           (emit (GDBStub_IsConnected False) w1)
                    else Some (Inr (emit (GDBStub_IsConnected False) w1)))"
    by blast
next
  assume "(\<forall>x. CanCurrentContextRun env x) \<and> stays_connected env False
            \<and> \<not> connected (gdb w) \<and> 1 \<le> gdbstub_loops settings"
  with RunLoop_runs_on [of env w settings tight_loop] assms
  show "CpuManager_RunLoop env settings tight_loop w = None"
    by blast
qed

lemma stays_connected_sim: "stays_connected sim_env b"
  by (simp add: stays_connected_def sim_env_def)

theorem C5_witness:
  "initialised (sim_world (sim_gdb True False {}) None 100)
   \<and> stays_connected sim_env True
   \<and> connected (gdb (sim_world (sim_gdb True False {}) None 100))
   \<and> (\<exists>w'. CpuManager_RunLoop sim_env (loops 3) True (sim_world (sim_gdb True False {}) None 100)
              = Some (Inr w')
         \<and> int (loop_iterations (calls w')) \<le> 3)
   \<and> initialised (sim_world (sim_gdb False False {}) None 100)
   \<and> stays_connected sim_env False
   \<and> \<not> connected (gdb (sim_world (sim_gdb False False {}) None 100))
   \<and> (0 :: int) < 3
   \<and> (\<exists>keep_running w1.
         for_cores sim_env True False ((sim_world (sim_gdb False False {}) None 100)\<lparr>active_core := 0\<rparr>)
           = Inr (keep_running, w1)
         \<and> do_while sim_env True 3 0 (sim_world (sim_gdb False False {}) None 100) =
             (if keep_running
              then do_while sim_env True 3 0 (emit (GDBStub_IsConnected False) w1)
              else Some (Inr (emit (GDBStub_IsConnected False) w1))))
   \<and> (\<forall>x. CanCurrentContextRun busy_env x)
   \<and> stays_connected busy_env False
   \<and> 1 \<le> gdbstub_loops (loops 3)
   \<and> CpuManager_RunLoop busy_env (loops 3) True (sim_world (sim_gdb False False {}) None 100) = None"
proof -
  let ?on = "sim_world (sim_gdb True False {}) None 100"
  let ?off = "sim_world (sim_gdb False False {}) None 100"
  have init: "initialised ?on" "initialised ?off"
    by (simp_all add: initialised_def sim_world_def NUM_CPU_CORES_def upt_4)
  have on: "stays_connected sim_env True \<and> connected (gdb ?on)"
    by (simp add: stays_connected_sim sim_world_def sim_gdb_def)
  have off: "stays_connected sim_env False \<and> \<not> connected (gdb ?off) \<and> (0 :: int) < 3"
    by (simp add: stays_connected_sim sim_world_def sim_gdb_def)
  have busy: "(\<forall>x. CanCurrentContextRun busy_env x) \<and> stays_connected busy_env False
      \<and> \<not> connected (gdb ?off) \<and> 1 \<le> gdbstub_loops (loops 3)"
    by (simp add: busy_env_def stays_connected_def sim_env_def sim_world_def sim_gdb_def loops_def)
  have new: "new_calls ?on w' = calls w'" for w'
    by (simp add: new_calls_def sim_world_def)
  have three: "max 1 (gdbstub_loops (loops 3)) = 3"
    by (simp add: loops_def)
  from C5_loop_bound_when_connected [OF init(1), where env = sim_env and settings = "loops 3"
      and tight_loop = True, THEN conjunct1]
  have "stays_connected sim_env True \<and> connected (gdb ?on) \<longrightarrow>
          (\<exists>w'. CpuManager_RunLoop sim_env (loops 3) True ?on = Some (Inr w')
               \<and> int (loop_iterations (new_calls ?on w')) \<le> max 1 (gdbstub_loops (loops 3)))" .
  with on have a: "\<exists>w'. CpuManager_RunLoop sim_env (loops 3) True ?on = Some (Inr w')
         \<and> int (loop_iterations (calls w')) \<le> 3"
    unfolding new three by (rule mp [rotated])
  from C5_loop_bound_when_connected [OF init(2), where env = sim_env and tight_loop = True
      and num_loops = 0 and max_loops = 3, THEN conjunct2, THEN conjunct1]
  have "stays_connected sim_env False \<and> \<not> connected (gdb ?off) \<and> (0 :: int) < 3 \<longrightarrow>
          (\<exists>keep_running w1.
               for_cores sim_env True False (?off\<lparr>active_core := 0\<rparr>) = Inr (keep_running, w1)
               \<and> \<not> connected (gdb w1) \<and> initialised w1
               \<and> do_while sim_env True 3 0 ?off =
                   (if keep_running
                    then do_while sim_env True 3 0 (emit (GDBStub_IsConnected False) w1)
                    else Some (Inr (emit (GDBStub_IsConnected False) w1))))" .
  with off have "\<exists>keep_running w1.
               for_cores sim_env True False (?off\<lparr>active_core := 0\<rparr>) = Inr (keep_running, w1)
               \<and> \<not> connected (gdb w1) \<and> initialised w1
               \<and> do_while sim_env True 3 0 ?off =
                   (if keep_running
                    then do_while sim_env True 3 0 (emit (GDBStub_IsConnected False) w1)
                    else Some (Inr (emit (GDBStub_IsConnected False) w1)))"
    by (rule mp [rotated])
  then have b: "\<exists>keep_running w1.
         for_cores sim_env True False (?off\<lparr>active_core := 0\<rparr>) = Inr (keep_running, w1)
         \<and> do_while sim_env True 3 0 ?off =
             (if keep_running
              then do_while sim_env True 3 0 (emit (GDBStub_IsConnected False) w1)
              else Some (Inr (emit (GDBStub_IsConnected False) w1)))"
    by blast
  from C5_loop_bound_when_connected [OF init(2), where env = busy_env and settings = "loops 3"
      and tight_loop = True, THEN conjunct2, THEN conjunct2]
  have "(\<forall>x. CanCurrentContextRun busy_env x) \<and> stays_connected busy_env False
      \<and> \<not> connected (gdb ?off) \<and> 1 \<le> gdbstub_loops (loops 3) \<longrightarrow>
        CpuManager_RunLoop busy_env (loops 3) True ?off = None" .
  with busy have c: "CpuManager_RunLoop busy_env (loops 3) True ?off = None"
    by (rule mp [rotated])
  from init on off busy a b c show ?thesis
    by (intro conjI) blast+
qed

text \<open>The older loop repeats exactly when some core could run: it has no counter.\<close>

lemma old_do_while_step:
  assumes "old_for_cores env tight False
             ((call_engine GDBStub_HandlePacket (HandlePacket env) w)\<lparr>active_core := 0\<rparr>) =
           Inr (keep, w1)"
  shows "old_do_while env tight w =
           (if keep then old_do_while env tight w1 else Some (Inr w1))"
  using assms by (subst old_do_while.simps) (simp add: Let_def)

end
